theory Spec2Isabelle
  imports Complex_Main "HOL-Library.Log_Nat"
begin

section \<open>JavaScript values and error objects\<close>

text \<open>
  The services are written in JavaScript. A number is modelled as an exact rational
  or one of the three non-finite values. The quotients and products computed by
  \<^verbatim>\<open>resizeImage\<close> are rounded to IEEE doubles (\<open>to_double\<close> below); the other
  arithmetic on finite numbers is exact. An argument position that the source tests
  with \<^verbatim>\<open>typeof\<close> is a \<open>jsval\<close>.
\<close>

datatype jsnum = Fin rat | NaN | PosInf | NegInf

datatype jsval = Number jsnum | Str string | Undefined | Null | Object

text \<open>
  An error object: the message, and the optional properties \<^verbatim>\<open>type\<close>,
  \<^verbatim>\<open>code\<close>, \<^verbatim>\<open>details\<close> and \<^verbatim>\<open>retryable\<close>. \<open>None\<close> is an
  absent property. The user-facing texts of \<^verbatim>\<open>ERROR_MESSAGES\<close> are represented by
  the code that indexes them; \<open>Prefixed\<close> is a template string that ends in a message.
\<close>

datatype message = ERROR_MESSAGES string | Text string | Prefixed string message

record js_error =
  message :: message
  etype :: "string option"
  code :: "string option"
  details :: "message option"
  retryable :: "bool option"

text \<open>\<^verbatim>\<open>new Error(msg)\<close>: a plain error with no classification fields.\<close>

definition new_Error :: "message \<Rightarrow> js_error" where
  "new_Error m = \<lparr>message = m, etype = None, code = None, details = None, retryable = None\<rparr>"

text \<open>The constants of the \<^verbatim>\<open>constants\<close> module that the services use, at the
  values they take when no environment variable overrides them.\<close>

abbreviation UPLOAD_ERROR :: string where "UPLOAD_ERROR \<equiv> ''UPLOAD_ERROR''"
abbreviation PROCESSING_ERROR :: string where "PROCESSING_ERROR \<equiv> ''PROCESSING_ERROR''"
abbreviation API_ERROR :: string where "API_ERROR \<equiv> ''API_ERROR''"
abbreviation NETWORK_ERROR :: string where "NETWORK_ERROR \<equiv> ''NETWORK_ERROR''"

abbreviation CANVAS_ERROR :: string where "CANVAS_ERROR \<equiv> ''CANVAS_ERROR''"
abbreviation IMAGE_LOAD_ERROR :: string where "IMAGE_LOAD_ERROR \<equiv> ''IMAGE_LOAD_ERROR''"
abbreviation API_KEY_INVALID :: string where "API_KEY_INVALID \<equiv> ''API_KEY_INVALID''"
abbreviation API_QUOTA_EXCEEDED :: string where "API_QUOTA_EXCEEDED \<equiv> ''API_QUOTA_EXCEEDED''"
abbreviation API_SERVICE_UNAVAILABLE :: string where
  "API_SERVICE_UNAVAILABLE \<equiv> ''API_SERVICE_UNAVAILABLE''"
abbreviation API_BAD_REQUEST :: string where "API_BAD_REQUEST \<equiv> ''API_BAD_REQUEST''"
abbreviation NETWORK_TIMEOUT :: string where "NETWORK_TIMEOUT \<equiv> ''NETWORK_TIMEOUT''"

definition MAX_IMAGE_WIDTH :: nat where "MAX_IMAGE_WIDTH = 2000"
definition MAX_IMAGE_HEIGHT :: nat where "MAX_IMAGE_HEIGHT = 2000"
definition MAX_CACHE_SIZE :: nat where "MAX_CACHE_SIZE = 10"
definition CACHE_EXPIRATION_TIME :: int where "CACHE_EXPIRATION_TIME = 60 * 60 * 1000"
definition MAX_ATTEMPTS :: int where "MAX_ATTEMPTS = 3"
definition INITIAL_DELAY :: rat where "INITIAL_DELAY = 1000"
definition BACKOFF_MULTIPLIER :: rat where "BACKOFF_MULTIPLIER = 2"

section \<open>IEEE 754 double-precision rounding\<close>

text \<open>
  A quotient or product of two JavaScript numbers is the exact result rounded to the
  nearest double, a tie going to the even significand. For \<open>x \<noteq> 0\<close> the spacing of
  the doubles around \<open>\<bar>x\<bar>\<close> is \<open>2 ^ e\<close> with \<open>e = max (\<lfloor>log\<^sub>2 \<bar>x\<bar>\<rfloor> - 52) (- 1074)\<close>
  (53 significant bits; \<open>2 ^ (- 1074)\<close> is the smallest subnormal), and the rounded value
  is the nearest multiple of \<open>2 ^ e\<close>. Overflow to \<open>Infinity\<close> is not represented:
  \<^verbatim>\<open>resizeImage\<close>, the one user of \<open>to_double\<close>, divides a bound by a larger side and
  multiplies a side by the resulting ratio, which is at most \<open>1\<close>, so every result is at
  most one of its finite operands.
\<close>

definition pow2 :: "int \<Rightarrow> rat" where
  "pow2 k = (if 0 \<le> k then 2 ^ nat k else 1 / 2 ^ nat (- k))"

text \<open>\<open>\<lfloor>log\<^sub>2 x\<rfloor>\<close> for \<open>x > 0\<close>, from the bit lengths of numerator and denominator.\<close>

definition ilog2 :: "rat \<Rightarrow> int" where
  "ilog2 x =
     (case quotient_of x of (p, q) \<Rightarrow>
        let k = bitlen p - bitlen q in if pow2 k \<le> x then k else k - 1)"

definition round_half_even :: "rat \<Rightarrow> int" where
  "round_half_even x =
     (let n = \<lfloor>x\<rfloor>; r = x - of_int n in
      if r < 1 / 2 then n else if 1 / 2 < r then n + 1 else if even n then n else n + 1)"

definition to_double :: "rat \<Rightarrow> rat" where
  "to_double x =
     (if x = 0 then 0
      else let e = max (ilog2 \<bar>x\<bar> - 52) (- 1074) in
           sgn x * of_int (round_half_even (\<bar>x\<bar> / pow2 e)) * pow2 e)"

section \<open>CanvasUtility\<close>

text \<open>
  A canvas is an \<^verbatim>\<open>HTMLCanvasElement\<close>, of which the model keeps the \<^verbatim>\<open>width\<close> and
  \<^verbatim>\<open>height\<close> attributes. They are of the IDL type \<^verbatim>\<open>unsigned long\<close>: an assigned
  number is truncated towards zero and reduced modulo \<open>2 ^ 32\<close>, and a result above
  \<open>2147483647\<close> is replaced by the attribute's default, \<open>300\<close> for the width and
  \<open>150\<close> for the height.
\<close>

record canvas =
  cwidth :: nat
  cheight :: nat

definition canvas_dimension :: "nat \<Rightarrow> rat \<Rightarrow> nat" where
  "canvas_dimension dflt v =
     (let n = (if 0 \<le> v then \<lfloor>v\<rfloor> else \<lceil>v\<rceil>) mod 2 ^ 32
      in if n \<le> 2147483647 then nat n else dflt)"

definition canvas_error :: js_error where
  "canvas_error = new_Error (ERROR_MESSAGES CANVAS_ERROR)"

definition image_load_error :: js_error where
  "image_load_error = new_Error (ERROR_MESSAGES IMAGE_LOAD_ERROR)"

text \<open>
  \<^verbatim>\<open>createCanvas\<close> throws the canvas error when an argument is not a number
  (\<^verbatim>\<open>typeof\<close>), is \<open>\<le> 0\<close>, or is not finite; \<open>NaN\<close> and \<open>+Infinity\<close> fail the
  \<^verbatim>\<open>isFinite\<close> test and \<open>-Infinity\<close> the sign test. There is no test that a dimension
  is an integer. Otherwise the two arguments are assigned to the attributes of a new canvas.
\<close>

fun createCanvas :: "jsval \<Rightarrow> jsval \<Rightarrow> js_error + canvas" where
  "createCanvas (Number (Fin width)) (Number (Fin height)) =
     (if width \<le> 0 \<or> height \<le> 0 then Inl canvas_error
      else Inr \<lparr>cwidth = canvas_dimension 300 width, cheight = canvas_dimension 150 height\<rparr>)"
| "createCanvas _ _ = Inl canvas_error"

text \<open>\<^verbatim>\<open>Math.round\<close>: the nearest integer, a tie going up; the result is exact.\<close>

definition Math_round :: "rat \<Rightarrow> rat" where
  "Math_round x = of_int \<lfloor>x + 1 / 2\<rfloor>"

text \<open>
  The image argument of \<^verbatim>\<open>resizeImage\<close>: a falsy value, an object that is not an
  \<^verbatim>\<open>HTMLImageElement\<close>, or an image element with its width and height.
\<close>

datatype image_arg = NoImage | NotAnImage | Image nat nat

text \<open>The two rescaling steps of \<^verbatim>\<open>resizeImage\<close>, on the local variables
  \<^verbatim>\<open>width\<close> and \<^verbatim>\<open>height\<close>; \<^verbatim>\<open>ratio\<close> and the product given to
  \<^verbatim>\<open>Math.round\<close> are doubles.\<close>

definition fit_width :: "rat \<Rightarrow> rat \<times> rat \<Rightarrow> rat \<times> rat" where
  "fit_width maxWidth wh =
     (case wh of (width, height) \<Rightarrow>
        if width > maxWidth
        then (let ratio = to_double (maxWidth / width)
              in (maxWidth, Math_round (to_double (height * ratio))))
        else (width, height))"

definition fit_height :: "rat \<Rightarrow> rat \<times> rat \<Rightarrow> rat \<times> rat" where
  "fit_height maxHeight wh =
     (case wh of (width, height) \<Rightarrow>
        if height > maxHeight
        then (let ratio = to_double (maxHeight / height)
              in (Math_round (to_double (width * ratio)), maxHeight))
        else (width, height))"

fun resizeImage :: "image_arg \<Rightarrow> jsval \<Rightarrow> jsval \<Rightarrow> js_error + canvas" where
  "resizeImage (Image w h) (Number (Fin maxWidth)) (Number (Fin maxHeight)) =
     (if maxWidth \<le> 0 \<or> maxHeight \<le> 0 then Inl canvas_error
      else if of_nat w \<le> maxWidth \<and> of_nat h \<le> maxHeight
      then createCanvas (Number (Fin (of_nat w))) (Number (Fin (of_nat h)))
      else (case fit_height maxHeight (fit_width maxWidth (of_nat w, of_nat h)) of
              (width, height) \<Rightarrow> createCanvas (Number (Fin width)) (Number (Fin height))))"
| "resizeImage (Image w h) _ _ = Inl canvas_error"
| "resizeImage _ _ _ = Inl image_load_error"

section \<open>Decimal rendering of numbers in template strings\<close>

definition digit :: "nat \<Rightarrow> char" where
  "digit d = char_of (48 + d)"

function show_nat :: "nat \<Rightarrow> string" where
  "show_nat n = (if n < 10 then [digit n] else show_nat (n div 10) @ [digit (n mod 10)])"
  by pat_completeness auto
termination
  by (relation "measure id") auto

declare show_nat.simps [simp del]

definition show_int :: "int \<Rightarrow> string" where
  "show_int i = (if i < 0 then CHR ''-'' # show_nat (nat (- i)) else show_nat (nat i))"

section \<open>Thrown values, blobs and the retry trace\<close>

text \<open>
  A \<^verbatim>\<open>throw\<close> carries an error object, or \<^verbatim>\<open>undefined\<close> where a retry loop
  that never ran throws its unassigned \<^verbatim>\<open>lastError\<close>.
\<close>

datatype thrown = Err js_error | ThrownUndefined

record blob =
  bytes :: "nat list"
  btype :: string

text \<open>An argument tested with \<^verbatim>\<open>!x || !(x instanceof Blob)\<close>: a falsy value, an object
  of another class, or a Blob (of any size, zero bytes included).\<close>

datatype blob_arg = NoBlob | NotABlob | ABlob blob

text \<open>
  What a retry loop does besides calling its operation: \<open>calls\<close> counts the invocations
  of the operation, \<open>slept\<close> lists the delays passed to \<^verbatim>\<open>sleep\<close>, oldest first.
  An operation is a function on a world \<open>'w\<close> of its own, returning a value or throwing
  an error object; the loops thread the pair of the trace and the world.
\<close>

record trace =
  calls :: nat
  slept :: "rat list"

type_synonym ('a, 'w) operation = "'w \<Rightarrow> (js_error + 'a) \<times> 'w"

definition sleep :: "rat \<Rightarrow> trace \<Rightarrow> trace" where
  "sleep ms t = t\<lparr>slept := slept t @ [ms]\<rparr>"

definition invoke :: "('a, 'w) operation \<Rightarrow> trace \<times> 'w \<Rightarrow> (js_error + 'a) \<times> trace \<times> 'w" where
  "invoke operation tw =
     (case tw of (t, w) \<Rightarrow>
        (case operation w of (r, w') \<Rightarrow> (r, t\<lparr>calls := calls t + 1\<rparr>, w')))"

text \<open>The operator \<^verbatim>\<open>a || b\<close> on an optional number: an absent or zero \<open>a\<close> is falsy.\<close>

definition js_or :: "'a::zero option \<Rightarrow> 'a \<Rightarrow> 'a" where
  "js_or a b = (case a of None \<Rightarrow> b | Some x \<Rightarrow> if x = 0 then b else x)"

section \<open>RemoveBgService\<close>

definition known_codes :: "string list" where
  "known_codes = [''INVALID_TYPE'', ''FILE_TOO_LARGE'', ''FILE_CORRUPTED'', CANVAS_ERROR,
     IMAGE_LOAD_ERROR, API_KEY_INVALID, API_QUOTA_EXCEEDED, API_SERVICE_UNAVAILABLE,
     API_BAD_REQUEST, NETWORK_TIMEOUT, ''NETWORK_OFFLINE'']"

text \<open>\<^verbatim>\<open>_createError(type, code, details, retryable = false)\<close>, the same in
  \<^verbatim>\<open>RemoveBgService\<close> and \<^verbatim>\<open>ImageProcessorService\<close>.\<close>

definition createError :: "string \<Rightarrow> string \<Rightarrow> message \<Rightarrow> bool \<Rightarrow> js_error" where
  "createError type c d r =
     \<lparr>message = (if c \<in> set known_codes then ERROR_MESSAGES c else d),
      etype = Some type, code = Some c, details = Some d, retryable = Some r\<rparr>"

record service_config =
  cfg_maxRetries :: "int option"
  cfg_initialDelay :: "rat option"
  cfg_backoffMultiplier :: "rat option"

record RemoveBgService =
  apiKey :: string
  maxRetries :: int
  initialDelay :: rat
  backoffMultiplier :: rat

definition new_RemoveBgService :: "string \<Rightarrow> service_config \<Rightarrow> js_error + RemoveBgService" where
  "new_RemoveBgService key config =
     (if key = [] then Inl (new_Error (Text ''API key is required for RemoveBgService''))
      else Inr \<lparr>apiKey = key,
                maxRetries = js_or (cfg_maxRetries config) MAX_ATTEMPTS,
                initialDelay = js_or (cfg_initialDelay config) INITIAL_DELAY,
                backoffMultiplier = js_or (cfg_backoffMultiplier config) BACKOFF_MULTIPLIER\<rparr>)"

definition handleApiError :: "int \<Rightarrow> js_error" where
  "handleApiError status =
     (if status = 400
      then createError API_ERROR API_BAD_REQUEST (Text ''Invalid image or request parameters'') False
      else if status = 401 \<or> status = 403
      then createError API_ERROR API_KEY_INVALID (Text ''Invalid or missing API key'') False
      else if status = 402 \<or> status = 429
      then createError API_ERROR API_QUOTA_EXCEEDED
             (Text ''API quota exceeded or payment required'') False
      else if status = 500 \<or> status = 503
      then createError API_ERROR API_SERVICE_UNAVAILABLE
             (Text ''API service temporarily unavailable'') True
      else createError API_ERROR API_SERVICE_UNAVAILABLE
             (Text (''API error: '' @ show_int status)) (status \<ge> 500))"

text \<open>
  \<^verbatim>\<open>_executeWithRetry\<close>: the \<^verbatim>\<open>for\<close> loop over \<open>attempt\<close>, from \<open>1\<close> while
  \<open>attempt \<le> maxRetries\<close>. \<^verbatim>\<open>!error.retryable\<close> holds unless the flag is \<open>true\<close>.
\<close>

function executeWithRetry_loop ::
  "RemoveBgService \<Rightarrow> ('a, 'w) operation \<Rightarrow> int \<Rightarrow> thrown \<Rightarrow> trace \<times> 'w
     \<Rightarrow> (thrown + 'a) \<times> trace \<times> 'w" where
  "executeWithRetry_loop svc operation attempt lastError tw =
     (if attempt \<le> maxRetries svc
      then (case invoke operation tw of
              (Inr v, tw') \<Rightarrow> (Inr v, tw')
            | (Inl error, t', w') \<Rightarrow>
                if retryable error \<noteq> Some True then (Inl (Err error), t', w')
                else if attempt = maxRetries svc then (Inl (Err error), t', w')
                else executeWithRetry_loop svc operation (attempt + 1) (Err error)
                       (sleep (initialDelay svc * backoffMultiplier svc ^ nat (attempt - 1)) t', w'))
      else (Inl lastError, tw))"
  by pat_completeness auto
termination
  by (relation "measure (\<lambda>(svc, operation, attempt, lastError, tw). nat (maxRetries svc + 1 - attempt))")
     auto

declare executeWithRetry_loop.simps [simp del]

definition executeWithRetry ::
  "RemoveBgService \<Rightarrow> ('a, 'w) operation \<Rightarrow> trace \<times> 'w \<Rightarrow> (thrown + 'a) \<times> trace \<times> 'w" where
  "executeWithRetry svc operation tw = executeWithRetry_loop svc operation 1 ThrownUndefined tw"

text \<open>
  The options of \<^verbatim>\<open>removeBackground\<close> (an absent property takes the default of the
  destructuring pattern) and the multipart form built from them.
\<close>

record api_options =
  opt_size :: "string option"
  opt_type :: "string option"
  opt_format :: "string option"
  opt_crop :: "bool option"
  opt_crop_margin :: "string option"
  opt_position :: "string option"
  opt_roi :: "string option"

datatype form_value = FBlob blob | FStr string

definition default_to :: "'a option \<Rightarrow> 'a \<Rightarrow> 'a" where
  "default_to a d = (case a of None \<Rightarrow> d | Some x \<Rightarrow> x)"

definition formData :: "blob \<Rightarrow> api_options \<Rightarrow> (string \<times> form_value) list" where
  "formData imageBlob options =
     (let size = default_to (opt_size options) ''auto'';
          type = default_to (opt_type options) ''auto'';
          format = default_to (opt_format options) ''png'';
          crop = default_to (opt_crop options) False;
          crop_margin = default_to (opt_crop_margin options) ''0px'';
          position = default_to (opt_position options) ''original'';
          roi = default_to (opt_roi options) ''0% 0% 100% 100%''
      in [(''image_file'', FBlob imageBlob), (''size'', FStr size), (''type'', FStr type),
          (''format'', FStr format)]
         @ (if crop
            then (''crop'', FStr ''true'')
                 # (if crop_margin \<noteq> [] then [(''crop_margin'', FStr crop_margin)] else [])
            else [])
         @ (if position \<noteq> [] \<and> position \<noteq> ''original'' then [(''position'', FStr position)] else [])
         @ (if roi \<noteq> [] \<and> roi \<noteq> ''0% 0% 100% 100%'' then [(''roi'', FStr roi)] else []))"

text \<open>
  The outcome of \<^verbatim>\<open>client.post\<close>: a response in the 2xx range with its data (\<open>None\<close>
  when the data is missing or not a Blob), a rejection with \<^verbatim>\<open>error.response\<close> and its
  status, a rejection with \<^verbatim>\<open>error.request\<close> only, or a rejection with neither and
  a message. The network is a function of the number of earlier requests and the form;
  the world of the posting operation is that number.
\<close>

datatype axios_result =
  Resolved "blob option" | ErrorResponse int | NoResponse | SetupError string

type_synonym network = "nat \<Rightarrow> (string \<times> form_value) list \<Rightarrow> axios_result"

definition post_operation :: "network \<Rightarrow> (string \<times> form_value) list \<Rightarrow> (blob, nat) operation" where
  "post_operation net form requests =
     (case net requests form of
        Resolved (Some data) \<Rightarrow> (Inr data, requests + 1)
      | Resolved None \<Rightarrow>
          (Inl (createError PROCESSING_ERROR API_BAD_REQUEST (ERROR_MESSAGES API_BAD_REQUEST) False),
           requests + 1)
      | ErrorResponse status \<Rightarrow> (Inl (handleApiError status), requests + 1)
      | NoResponse \<Rightarrow>
          (Inl (createError NETWORK_ERROR NETWORK_TIMEOUT (Text ''No response from server'') True),
           requests + 1)
      | SetupError msg \<Rightarrow>
          (Inl (createError PROCESSING_ERROR API_BAD_REQUEST
                  (Text (if msg = [] then ''Request setup failed'' else msg)) False),
           requests + 1))"

definition removeBackground ::
  "network \<Rightarrow> RemoveBgService \<Rightarrow> blob_arg \<Rightarrow> api_options \<Rightarrow> trace \<times> nat
     \<Rightarrow> (thrown + blob) \<times> trace \<times> nat" where
  "removeBackground net svc imageBlob options tw =
     (case imageBlob of
        ABlob b \<Rightarrow> executeWithRetry svc (post_operation net (formData b options)) tw
      | _ \<Rightarrow>
          (Inl (Err (createError PROCESSING_ERROR API_BAD_REQUEST
                       (Text ''Invalid image blob provided'') False)), tw))"

section \<open>ErrorRecovery\<close>

definition retryableApiErrors :: "string list" where
  "retryableApiErrors = [API_QUOTA_EXCEEDED, API_SERVICE_UNAVAILABLE, NETWORK_TIMEOUT]"

definition nonRetryableApiErrors :: "string list" where
  "nonRetryableApiErrors = [API_KEY_INVALID, API_BAD_REQUEST]"

text \<open>\<^verbatim>\<open>error.code && list.includes(error.code)\<close>\<close>

definition code_in :: "js_error \<Rightarrow> string list \<Rightarrow> bool" where
  "code_in e l = (case code e of None \<Rightarrow> False | Some c \<Rightarrow> c \<noteq> [] \<and> c \<in> set l)"

text \<open>\<^verbatim>\<open>isRetryable(error)\<close>; \<open>None\<close> is a falsy argument.\<close>

definition isRetryable :: "js_error option \<Rightarrow> bool" where
  "isRetryable error =
     (case error of
        None \<Rightarrow> False
      | Some e \<Rightarrow>
          (case retryable e of
             Some r \<Rightarrow> r
           | None \<Rightarrow>
               if etype e = Some NETWORK_ERROR then True
               else if etype e = Some API_ERROR
               then (if code_in e retryableApiErrors then True
                     else if code_in e nonRetryableApiErrors then False
                     else True)
               else if etype e = Some PROCESSING_ERROR then True
               else if etype e = Some UPLOAD_ERROR then False
               else False))"

text \<open>
  \<^verbatim>\<open>retry(operation, maxAttempts, initialDelay, backoffMultiplier)\<close>. The operation
  argument is \<open>None\<close> when it is not a function; a caller that omits the other
  arguments passes the defaults \<open>MAX_ATTEMPTS\<close>, \<open>INITIAL_DELAY\<close> and
  \<open>BACKOFF_MULTIPLIER\<close>. The loop does not read the \<^verbatim>\<open>retryable\<close> flag; the
  \<^verbatim>\<open>console.warn\<close> of each failed attempt is left out.
\<close>

function retry_loop ::
  "('a, 'w) operation \<Rightarrow> int \<Rightarrow> rat \<Rightarrow> rat \<Rightarrow> int \<Rightarrow> thrown \<Rightarrow> trace \<times> 'w
     \<Rightarrow> (thrown + 'a) \<times> trace \<times> 'w" where
  "retry_loop operation maxAttempts initDelay multiplier attempt lastError tw =
     (if attempt \<le> maxAttempts
      then (case invoke operation tw of
              (Inr result, tw') \<Rightarrow> (Inr result, tw')
            | (Inl error, t', w') \<Rightarrow>
                if attempt = maxAttempts then (Inl (Err error), t', w')
                else retry_loop operation maxAttempts initDelay multiplier (attempt + 1) (Err error)
                       (sleep (initDelay * multiplier ^ nat (attempt - 1)) t', w'))
      else (Inl lastError, tw))"
  by pat_completeness auto
termination
  by (relation "measure (\<lambda>(operation, maxAttempts, initDelay, multiplier, attempt, lastError, tw).
        nat (maxAttempts + 1 - attempt))") auto

declare retry_loop.simps [simp del]

definition retry ::
  "('a, 'w) operation option \<Rightarrow> int \<Rightarrow> rat \<Rightarrow> rat \<Rightarrow> trace \<times> 'w
     \<Rightarrow> (thrown + 'a) \<times> trace \<times> 'w" where
  "retry operation maxAttempts initDelay multiplier tw =
     (case operation of
        None \<Rightarrow> (Inl (Err (new_Error (Text ''Operation must be a function''))), tw)
      | Some f \<Rightarrow>
          if maxAttempts < 1
          then (Inl (Err (new_Error (Text ''maxAttempts must be at least 1''))), tw)
          else retry_loop f maxAttempts initDelay multiplier 1 ThrownUndefined tw)"

record retry_options =
  opt_maxAttempts :: "int option"
  opt_initialDelay :: "rat option"
  opt_backoffMultiplier :: "rat option"

definition thrown_error :: "thrown \<Rightarrow> js_error option" where
  "thrown_error x = (case x of Err e \<Rightarrow> Some e | ThrownUndefined \<Rightarrow> None)"

text \<open>\<^verbatim>\<open>withRetry\<close>: both branches of the \<^verbatim>\<open>catch\<close> block rethrow the error.\<close>

definition withRetry ::
  "('a, 'w) operation option \<Rightarrow> retry_options \<Rightarrow> trace \<times> 'w \<Rightarrow> (thrown + 'a) \<times> trace \<times> 'w" where
  "withRetry operation options tw =
     (let maxAttempts = default_to (opt_maxAttempts options) MAX_ATTEMPTS;
          initDelay = default_to (opt_initialDelay options) INITIAL_DELAY;
          multiplier = default_to (opt_backoffMultiplier options) BACKOFF_MULTIPLIER
      in case retry operation maxAttempts initDelay multiplier tw of
           (Inr v, tw') \<Rightarrow> (Inr v, tw')
         | (Inl error, tw') \<Rightarrow>
             if \<not> isRetryable (thrown_error error) then (Inl error, tw') else (Inl error, tw'))"

section \<open>PatternExtractor\<close>

text \<open>
  The pixel data is the \<^verbatim>\<open>Uint8ClampedArray\<close> of an \<^verbatim>\<open>ImageData\<close>: four bytes per
  pixel, row by row. A read past the end gives \<^verbatim>\<open>undefined\<close>, and
  \<^verbatim>\<open>undefined > t\<close> is false.
\<close>

definition px :: "nat list \<Rightarrow> nat \<Rightarrow> nat option" where
  "px pixels i = (if i < length pixels then Some (pixels ! i) else None)"

definition exceeds :: "nat option \<Rightarrow> nat \<Rightarrow> bool" where
  "exceeds v t = (case v of None \<Rightarrow> False | Some a \<Rightarrow> a > t)"

record bounds =
  b_left :: int
  b_top :: int
  b_right :: int
  b_bottom :: int

text \<open>The pixel coordinates in the order of the nested loops (\<open>y\<close> outside, \<open>x\<close> inside).\<close>

definition coords :: "nat \<Rightarrow> nat \<Rightarrow> (nat \<times> nat) list" where
  "coords width height = concat (map (\<lambda>y. map (\<lambda>x. (x, y)) [0..<width]) [0..<height])"

text \<open>The running \<open>(minX, minY, maxX, maxY, hasContent)\<close> of the two bound scans.\<close>

type_synonym scan = "int \<times> int \<times> int \<times> int \<times> bool"

definition mark :: "nat \<Rightarrow> nat \<Rightarrow> scan \<Rightarrow> scan" where
  "mark x y acc =
     (case acc of (minX, minY, maxX, maxY, hasContent) \<Rightarrow>
        (min minX (int x), min minY (int y), max maxX (int x), max maxY (int y), True))"

definition scan_bounds :: "scan \<Rightarrow> bounds option" where
  "scan_bounds acc =
     (case acc of (minX, minY, maxX, maxY, hasContent) \<Rightarrow>
        if \<not> hasContent then None
        else Some \<lparr>b_left = minX, b_top = minY, b_right = maxX + 1, b_bottom = maxY + 1\<rparr>)"

definition detectPatternBoundsBasic :: "nat list \<Rightarrow> nat \<Rightarrow> nat \<Rightarrow> nat \<Rightarrow> bounds option" where
  "detectPatternBoundsBasic pixels width height threshold =
     scan_bounds
       (fold (\<lambda>(x, y) acc.
                let index = (y * width + x) * 4 in
                if exceeds (px pixels (index + 3)) threshold then mark x y acc else acc)
          (coords width height) (int width, int height, 0, 0, False))"

text \<open>
  \<^verbatim>\<open>_detectDominantColor\<close>: every tenth pixel of every tenth row; a colour key is the
  triple of quantised channels; \<open>colorCounts\<close> keeps the keys in insertion order, as
  \<^verbatim>\<open>Object.entries\<close> enumerates them. The channels are read only where the alpha byte
  of the same pixel was in range.
\<close>

type_synonym rgb = "nat \<times> nat \<times> nat"

fun bump :: "rgb \<Rightarrow> (rgb \<times> nat) list \<Rightarrow> (rgb \<times> nat) list" where
  "bump k [] = [(k, 1)]"
| "bump k ((k', c) # rest) = (if k = k' then (k', c + 1) # rest else (k', c) # bump k rest)"

definition quantize :: "nat \<Rightarrow> nat" where
  "quantize v = (v div 32) * 32"

definition sample_coords :: "nat \<Rightarrow> nat \<Rightarrow> (nat \<times> nat) list" where
  "sample_coords width height =
     concat (map (\<lambda>y. map (\<lambda>x. (x, y)) (filter (\<lambda>x. x mod 10 = 0) [0..<width]))
               (filter (\<lambda>y. y mod 10 = 0) [0..<height]))"

definition detectDominantColor :: "nat list \<Rightarrow> nat \<Rightarrow> nat \<Rightarrow> rgb" where
  "detectDominantColor pixels width height =
     (let colorCounts =
            fold (\<lambda>(x, y) counts.
                    let index = (y * width + x) * 4 in
                    if exceeds (px pixels (index + 3)) 200
                    then bump (quantize (pixels ! index), quantize (pixels ! (index + 1)),
                               quantize (pixels ! (index + 2))) counts
                    else counts)
              (sample_coords width height) []
      in fst (fold (\<lambda>(colorKey, count) (dominantColorKey, maxCount).
                      if count > maxCount then (colorKey, count) else (dominantColorKey, maxCount))
                colorCounts ((0, 0, 0), 0)))"

text \<open>
  \<^verbatim>\<open>_colorDistance(c1, c2) > 30\<close>: the distance is the square root of an integer, so
  it exceeds \<open>30\<close> exactly when the sum of squares exceeds \<open>900\<close>.
\<close>

definition colorDistanceSquared :: "rgb \<Rightarrow> rgb \<Rightarrow> int" where
  "colorDistanceSquared c1 c2 =
     (case (c1, c2) of ((r1, g1, b1), (r2, g2, b2)) \<Rightarrow>
        (int r1 - int r2) * (int r1 - int r2) + (int g1 - int g2) * (int g1 - int g2)
        + (int b1 - int b2) * (int b1 - int b2))"

definition detectPatternBounds :: "nat list \<Rightarrow> nat \<Rightarrow> nat \<Rightarrow> nat \<Rightarrow> bounds option" where
  "detectPatternBounds pixels width height threshold =
     (let dominantColor = detectDominantColor pixels width height;
          acc = fold (\<lambda>(x, y) acc.
                  let index = (y * width + x) * 4 in
                  if exceeds (px pixels (index + 3)) threshold
                     \<and> colorDistanceSquared
                          (pixels ! index, pixels ! (index + 1), pixels ! (index + 2))
                          dominantColor > 900
                  then mark x y acc else acc)
                (coords width height) (int width, int height, 0, 0, False)
      in case acc of (minX, minY, maxX, maxY, hasContent) \<Rightarrow>
           if \<not> hasContent then detectPatternBoundsBasic pixels width height threshold
           else scan_bounds acc)"

text \<open>The padding step shared by \<^verbatim>\<open>extractPattern\<close> and \<^verbatim>\<open>smartCrop\<close>.\<close>

definition paddedBounds :: "int \<Rightarrow> nat \<Rightarrow> nat \<Rightarrow> bounds \<Rightarrow> bounds" where
  "paddedBounds padding width height b =
     \<lparr>b_left = max 0 (b_left b - padding), b_top = max 0 (b_top b - padding),
      b_right = min (int width) (b_right b + padding),
      b_bottom = min (int height) (b_bottom b + padding)\<rparr>"

text \<open>
  \<^verbatim>\<open>extractPattern\<close> on the pixel data of the image: \<open>None\<close> is the uncropped canvas
  (no bounds detected), \<open>Some b\<close> the canvas cropped to the padded bounds \<open>b\<close>.
\<close>

record extract_options =
  opt_padding :: "int option"
  opt_threshold :: "nat option"

definition extractPattern :: "nat list \<Rightarrow> nat \<Rightarrow> nat \<Rightarrow> extract_options \<Rightarrow> bounds option" where
  "extractPattern pixels width height options =
     (let padding = default_to (opt_padding options) 20;
          threshold = default_to (opt_threshold options) 10
      in case detectPatternBounds pixels width height threshold of
           None \<Rightarrow> None
         | Some b \<Rightarrow> Some (paddedBounds padding width height b))"

text \<open>A density is a quotient of two counts; \<open>0 / 0\<close> is \<open>NaN\<close>, which exceeds nothing.\<close>

definition density :: "nat \<Rightarrow> nat \<Rightarrow> jsnum" where
  "density opaquePixels n = (if n = 0 then NaN else Fin (of_nat opaquePixels / of_nat n))"

fun js_gt :: "jsnum \<Rightarrow> rat \<Rightarrow> bool" where
  "js_gt (Fin q) t = (q > t)"
| "js_gt PosInf t = True"
| "js_gt _ t = False"

definition calculateRowDensity :: "nat list \<Rightarrow> nat \<Rightarrow> nat \<Rightarrow> jsnum list" where
  "calculateRowDensity pixels width height =
     map (\<lambda>y. density
                (length (filter (\<lambda>x. exceeds (px pixels ((y * width + x) * 4 + 3)) 10) [0..<width]))
                width)
       [0..<height]"

definition calculateColumnDensity :: "nat list \<Rightarrow> nat \<Rightarrow> nat \<Rightarrow> jsnum list" where
  "calculateColumnDensity pixels width height =
     map (\<lambda>x. density
                (length (filter (\<lambda>y. exceeds (px pixels ((y * width + x) * 4 + 3)) 10) [0..<height]))
                height)
       [0..<width]"

text \<open>
  The scans of \<^verbatim>\<open>_findContentBounds\<close>: the first index whose density exceeds the
  threshold, counting up from \<open>i\<close>, and the last such index.
\<close>

fun first_above :: "jsnum list \<Rightarrow> rat \<Rightarrow> nat \<Rightarrow> nat option" where
  "first_above [] threshold i = None"
| "first_above (d # ds) threshold i =
     (if js_gt d threshold then Some i else first_above ds threshold (i + 1))"

definition last_above :: "jsnum list \<Rightarrow> rat \<Rightarrow> nat option" where
  "last_above ds threshold =
     (case first_above (rev ds) threshold 0 of
        None \<Rightarrow> None
      | Some j \<Rightarrow> Some (length ds - 1 - j))"

definition findContentBounds :: "jsnum list \<Rightarrow> jsnum list \<Rightarrow> rat \<Rightarrow> bounds option" where
  "findContentBounds rowDensity colDensity threshold =
     (let top = (case first_above rowDensity threshold 0 of Some i \<Rightarrow> int i | None \<Rightarrow> 0);
          bottom = (case last_above rowDensity threshold of
                      Some i \<Rightarrow> int i + 1 | None \<Rightarrow> int (length rowDensity) - 1);
          left = (case first_above colDensity threshold 0 of Some i \<Rightarrow> int i | None \<Rightarrow> 0);
          right = (case last_above colDensity threshold of
                     Some i \<Rightarrow> int i + 1 | None \<Rightarrow> int (length colDensity) - 1)
      in if top \<ge> bottom \<or> left \<ge> right then None
         else Some \<lparr>b_left = left, b_top = top, b_right = right, b_bottom = bottom\<rparr>)"

text \<open>
  \<^verbatim>\<open>smartCrop\<close> returns a canvas on either path; the model records which path made
  it: the crop to the padded density bounds, or the result of \<^verbatim>\<open>extractPattern\<close>.
\<close>

record smartCrop_options =
  opt_densityThreshold :: "rat option"
  opt_crop_padding :: "int option"

datatype crop = DensityCrop bounds | Fallback "bounds option"

definition smartCrop :: "nat list \<Rightarrow> nat \<Rightarrow> nat \<Rightarrow> smartCrop_options \<Rightarrow> crop" where
  "smartCrop pixels width height options =
     (let densityThreshold = default_to (opt_densityThreshold options) (5 / 100);
          padding = default_to (opt_crop_padding options) 20;
          rowDensity = calculateRowDensity pixels width height;
          colDensity = calculateColumnDensity pixels width height
      in case findContentBounds rowDensity colDensity densityThreshold of
           None \<Rightarrow>
             Fallback (extractPattern pixels width height
                         \<lparr>opt_padding = Some padding, opt_threshold = None\<rparr>)
         | Some b \<Rightarrow> DensityCrop (paddedBounds padding width height b))"

section \<open>ImageProcessorService\<close>

definition ENABLE_PATTERN_EXTRACTION :: bool where "ENABLE_PATTERN_EXTRACTION = True"
definition PATTERN_PADDING :: nat where "PATTERN_PADDING = 20"

text \<open>
  A \<^verbatim>\<open>File\<close> is a Blob with a name and a modification time; its \<^verbatim>\<open>size\<close> is the
  number of bytes and its \<^verbatim>\<open>type\<close> the type of the Blob.
\<close>

record js_file =
  fname :: string
  lastModified :: int
  content :: blob

datatype file_arg = NoFile | NotAFile | AFile js_file

record processing_result =
  originalDataUrl :: string
  extractedDataUrl :: string
  rwidth :: nat
  rheight :: nat
  processingTime :: int
  fromCache :: bool

record cache_entry =
  result :: processing_result
  timestamp :: int

text \<open>
  The state of a service instance: the cache, a JavaScript \<^verbatim>\<open>Map\<close>, as the list of its
  entries in insertion order; the number of \<^verbatim>\<open>Date.now()\<close> reads made so far; and the
  number of calls made to \<^verbatim>\<open>backgroundRemovalApi.removeBackground\<close>.
\<close>

record ips_state =
  ticks :: nat
  cache :: "(string \<times> cache_entry) list"
  apiCalls :: nat

text \<open>
  What the browser supplies: the clock (the value of the \<open>k\<close>-th read), the
  \<^verbatim>\<open>FileReader\<close> (\<open>None\<close> when \<^verbatim>\<open>onerror\<close> fires), the decoding of a data URL by an
  \<^verbatim>\<open>Image\<close> element (its dimensions, or \<open>None\<close> for \<^verbatim>\<open>onerror\<close>), and
  \<^verbatim>\<open>canvas.toBlob\<close> (\<open>None\<close> for a null blob).
\<close>

record env =
  now :: "nat \<Rightarrow> int"
  readAsDataURL :: "blob \<Rightarrow> string option"
  imageSize :: "string \<Rightarrow> (nat \<times> nat) option"
  toBlob :: "canvas \<Rightarrow> blob option"

text \<open>The configured background-removal service: its \<^verbatim>\<open>removeBackground\<close> method,
  acting on a world of its own.\<close>

type_synonym 'w api = "blob_arg \<Rightarrow> api_options \<Rightarrow> 'w \<Rightarrow> (thrown + blob_arg) \<times> 'w"

definition Date_now :: "env \<Rightarrow> ips_state \<Rightarrow> int \<times> ips_state" where
  "Date_now env s = (now env (ticks s), s\<lparr>ticks := ticks s + 1\<rparr>)"

text \<open>\<^verbatim>\<open>Map.delete\<close> and \<^verbatim>\<open>Map.set\<close>: a new key goes to the end, an existing key keeps
  its place.\<close>

definition Map_delete :: "'k \<Rightarrow> ('k \<times> 'v) list \<Rightarrow> ('k \<times> 'v) list" where
  "Map_delete k m = filter (\<lambda>kv. fst kv \<noteq> k) m"

definition Map_set :: "'k \<Rightarrow> 'v \<Rightarrow> ('k \<times> 'v) list \<Rightarrow> ('k \<times> 'v) list" where
  "Map_set k v m =
     (case map_of m k of
        None \<Rightarrow> m @ [(k, v)]
      | Some old \<Rightarrow> map (\<lambda>kv. if fst kv = k then (k, v) else kv) m)"

definition generateCacheKey :: "js_file \<Rightarrow> string" where
  "generateCacheKey f =
     fname f @ ''-'' @ show_nat (length (bytes (content f))) @ ''-'' @ show_int (lastModified f)
     @ ''-'' @ btype (content f)"

definition getCachedResult :: "env \<Rightarrow> string \<Rightarrow> ips_state \<Rightarrow> processing_result option \<times> ips_state" where
  "getCachedResult env cacheKey s =
     (case map_of (cache s) cacheKey of
        None \<Rightarrow> (None, s)
      | Some cached \<Rightarrow>
          (case Date_now env s of (t, s1) \<Rightarrow>
             let age = t - timestamp cached in
             if age > CACHE_EXPIRATION_TIME
             then (None, s1\<lparr>cache := Map_delete cacheKey (cache s1)\<rparr>)
             else (Some (result cached), s1)))"

definition cacheResult :: "env \<Rightarrow> string \<Rightarrow> processing_result \<Rightarrow> ips_state \<Rightarrow> ips_state" where
  "cacheResult env cacheKey r s =
     (let s1 = (if length (cache s) \<ge> MAX_CACHE_SIZE
                then (case cache s of
                        [] \<Rightarrow> s
                      | (firstKey, v) # rest \<Rightarrow> s\<lparr>cache := Map_delete firstKey (cache s)\<rparr>)
                else s)
      in case Date_now env s1 of (t, s2) \<Rightarrow>
           s2\<lparr>cache := Map_set cacheKey \<lparr>result = r, timestamp = t\<rparr> (cache s2)\<rparr>)"

definition clearCache :: "ips_state \<Rightarrow> ips_state" where
  "clearCache s = s\<lparr>cache := []\<rparr>"

definition getCacheStats :: "ips_state \<Rightarrow> nat \<times> nat \<times> string list" where
  "getCacheStats s = (length (cache s), MAX_CACHE_SIZE, map fst (cache s))"

definition loadImage :: "env \<Rightarrow> string \<Rightarrow> js_error + nat \<times> nat" where
  "loadImage env dataUrl =
     (if dataUrl = [] then Inl image_load_error
      else (case imageSize env dataUrl of
              None \<Rightarrow> Inl image_load_error
            | Some img \<Rightarrow> Inr img))"

text \<open>\<^verbatim>\<open>imageToBlob\<close> as \<^verbatim>\<open>compressImage\<close> calls it: on a canvas, with the format
  \<open>image/png\<close> and the quality \<open>0.95\<close>, which pass its three validations.\<close>

definition imageToBlob :: "env \<Rightarrow> canvas \<Rightarrow> js_error + blob" where
  "imageToBlob env c = (case toBlob env c of None \<Rightarrow> Inl canvas_error | Some b \<Rightarrow> Inr b)"

definition compressImage :: "env \<Rightarrow> js_file \<Rightarrow> nat \<times> nat \<Rightarrow> js_error + blob" where
  "compressImage env imageFile img =
     (case img of (w, h) \<Rightarrow>
        if w \<le> MAX_IMAGE_WIDTH \<and> h \<le> MAX_IMAGE_HEIGHT then Inr (content imageFile)
        else (case (case resizeImage (Image w h) (Number (Fin (of_nat MAX_IMAGE_WIDTH)))
                           (Number (Fin (of_nat MAX_IMAGE_HEIGHT))) of
                      Inl e \<Rightarrow> Inl e
                    | Inr resizedCanvas \<Rightarrow> imageToBlob env resizedCanvas) of
                Inl error \<Rightarrow>
                  Inl (createError PROCESSING_ERROR CANVAS_ERROR
                         (Prefixed ''Image compression failed: '' (message error)) False)
              | Inr compressedBlob \<Rightarrow> Inr compressedBlob))"

definition prepareImageForApi :: "env \<Rightarrow> js_file \<Rightarrow> nat \<times> nat \<Rightarrow> js_error + blob" where
  "prepareImageForApi env imageFile img =
     (case img of (w, h) \<Rightarrow>
        if w > MAX_IMAGE_WIDTH \<or> h > MAX_IMAGE_HEIGHT then compressImage env imageFile img
        else Inr (content imageFile))"

text \<open>The object literal of \<^verbatim>\<open>removeBackground\<close>: three defaults by \<^verbatim>\<open>||\<close>, then
  \<open>crop\<close> and \<open>crop_margin\<close>, then the spread of the caller's options over all of them.\<close>

definition apiOptions :: "api_options \<Rightarrow> api_options" where
  "apiOptions options =
     \<lparr>opt_size = Some (default_to (opt_size options) ''auto''),
      opt_type = Some (default_to (opt_type options) ''auto''),
      opt_format = Some (default_to (opt_format options) ''png''),
      opt_crop = Some (default_to (opt_crop options) True),
      opt_crop_margin = Some (default_to (opt_crop_margin options) ''20px''),
      opt_position = opt_position options,
      opt_roi = opt_roi options\<rparr>"

definition not_configured :: js_error where
  "not_configured = createError API_ERROR API_SERVICE_UNAVAILABLE
                      (Text ''Background removal service not configured'') False"

definition ips_removeBackground ::
  "'w api option \<Rightarrow> blob_arg \<Rightarrow> api_options \<Rightarrow> ips_state \<times> 'w
     \<Rightarrow> (thrown + blob_arg) \<times> ips_state \<times> 'w" where
  "ips_removeBackground backgroundRemovalApi imageBlob options sw =
     (case sw of (s, w) \<Rightarrow>
        (case backgroundRemovalApi of
           None \<Rightarrow> (Inl (Err not_configured), s, w)
         | Some service \<Rightarrow>
             (case service imageBlob (apiOptions options) w of
                (r, w') \<Rightarrow> (r, s\<lparr>apiCalls := apiCalls s + 1\<rparr>, w'))))"

definition blobToDataUrl :: "env \<Rightarrow> blob_arg \<Rightarrow> js_error + string" where
  "blobToDataUrl env b =
     (case b of
        ABlob bl \<Rightarrow>
          (case readAsDataURL env bl of
             None \<Rightarrow> Inl (createError PROCESSING_ERROR CANVAS_ERROR
                             (Text ''Failed to convert blob to DataURL'') False)
           | Some url \<Rightarrow> Inr url)
      | _ \<Rightarrow> Inl (createError PROCESSING_ERROR CANVAS_ERROR (Text ''Invalid blob provided'') False))"

definition fileToDataUrl :: "env \<Rightarrow> js_file \<Rightarrow> js_error + string" where
  "fileToDataUrl env f =
     (case readAsDataURL env (content f) of
        None \<Rightarrow> Inl (createError PROCESSING_ERROR IMAGE_LOAD_ERROR
                        (Text ''Failed to read image file'') False)
      | Some url \<Rightarrow> Inr url)"

definition processing_options :: api_options where
  "processing_options =
     \<lparr>opt_size = Some ''auto'', opt_type = Some ''auto'', opt_format = Some ''png'',
      opt_crop = Some ENABLE_PATTERN_EXTRACTION,
      opt_crop_margin = Some (show_nat PATTERN_PADDING @ ''px''),
      opt_position = None, opt_roi = None\<rparr>"

text \<open>
  The steps of \<^verbatim>\<open>processImage\<close> between the cache lookup and the cache write: read the
  file, load it, compress if needed, call the service, read and load the result. They
  yield the two data URLs and the final dimensions.
\<close>

definition pipeline ::
  "env \<Rightarrow> 'w api \<Rightarrow> js_file \<Rightarrow> ips_state \<times> 'w
     \<Rightarrow> (thrown + string \<times> string \<times> nat \<times> nat) \<times> ips_state \<times> 'w" where
  "pipeline env service imageFile sw =
     (case sw of (s, w) \<Rightarrow>
      case fileToDataUrl env imageFile of
        Inl e \<Rightarrow> (Inl (Err e), s, w)
      | Inr originalUrl \<Rightarrow>
      (case loadImage env originalUrl of
         Inl e \<Rightarrow> (Inl (Err e), s, w)
       | Inr originalImage \<Rightarrow>
       (case prepareImageForApi env imageFile originalImage of
          Inl e \<Rightarrow> (Inl (Err e), s, w)
        | Inr imageBlob \<Rightarrow>
        (case ips_removeBackground (Some service) (ABlob imageBlob) processing_options (s, w) of
           (Inl e, s', w') \<Rightarrow> (Inl e, s', w')
         | (Inr extractedBlob, s', w') \<Rightarrow>
         (case blobToDataUrl env extractedBlob of
            Inl e \<Rightarrow> (Inl (Err e), s', w')
          | Inr finalUrl \<Rightarrow>
          (case loadImage env finalUrl of
             Inl e \<Rightarrow> (Inl (Err e), s', w')
           | Inr (finalWidth, finalHeight) \<Rightarrow>
               (Inr (originalUrl, finalUrl, finalWidth, finalHeight), s', w')))))))"

text \<open>The \<^verbatim>\<open>try\<close> block of \<^verbatim>\<open>processImage\<close>, after \<open>startTime\<close> has been read.\<close>

definition processImage_try ::
  "env \<Rightarrow> 'w api option \<Rightarrow> file_arg \<Rightarrow> int \<Rightarrow> ips_state \<times> 'w
     \<Rightarrow> (thrown + processing_result) \<times> ips_state \<times> 'w" where
  "processImage_try env backgroundRemovalApi imageFile startTime sw =
     (case sw of (s, w) \<Rightarrow>
      case imageFile of
        AFile f \<Rightarrow>
          (case backgroundRemovalApi of
             None \<Rightarrow> (Inl (Err not_configured), s, w)
           | Some service \<Rightarrow>
               let cacheKey = generateCacheKey f in
               (case getCachedResult env cacheKey s of
                  (Some cachedResult, s1) \<Rightarrow>
                    (case Date_now env s1 of (t, s2) \<Rightarrow>
                       (Inr (cachedResult\<lparr>processingTime := t - startTime, fromCache := True\<rparr>),
                        s2, w))
                | (None, s1) \<Rightarrow>
                    (case pipeline env service f (s1, w) of
                       (Inl e, s2, w2) \<Rightarrow> (Inl e, s2, w2)
                     | (Inr (originalUrl, finalUrl, finalWidth, finalHeight), s2, w2) \<Rightarrow>
                         (case Date_now env s2 of (t, s3) \<Rightarrow>
                            let r = \<lparr>originalDataUrl = originalUrl, extractedDataUrl = finalUrl,
                                     rwidth = finalWidth, rheight = finalHeight,
                                     processingTime = t - startTime, fromCache = False\<rparr>
                            in (Inr r, cacheResult env cacheKey r s3, w2)))))
      | _ \<Rightarrow>
          (Inl (Err (createError PROCESSING_ERROR API_BAD_REQUEST
                       (Text ''Invalid image file provided'') False)), s, w))"

text \<open>
  The \<^verbatim>\<open>catch\<close> block: an error with a truthy \<^verbatim>\<open>type\<close> and \<^verbatim>\<open>code\<close> is rethrown,
  any other error object is wrapped; reading \<^verbatim>\<open>error.type\<close> of a thrown
  \<^verbatim>\<open>undefined\<close> is itself a \<^verbatim>\<open>TypeError\<close>.
\<close>

definition truthy :: "string option \<Rightarrow> bool" where
  "truthy v = (case v of None \<Rightarrow> False | Some x \<Rightarrow> x \<noteq> [])"

definition processImage_catch :: "thrown \<Rightarrow> js_error" where
  "processImage_catch error =
     (case error of
        ThrownUndefined \<Rightarrow> new_Error (Text ''TypeError'')
      | Err e \<Rightarrow>
          if truthy (etype e) \<and> truthy (code e) then e
          else createError PROCESSING_ERROR CANVAS_ERROR
                 (if message e = Text [] then Text ''Image processing failed'' else message e)
                 False)"

definition processImage ::
  "env \<Rightarrow> 'w api option \<Rightarrow> file_arg \<Rightarrow> ips_state \<times> 'w
     \<Rightarrow> (js_error + processing_result) \<times> ips_state \<times> 'w" where
  "processImage env backgroundRemovalApi imageFile sw =
     (case sw of (s0, w) \<Rightarrow>
      case Date_now env s0 of (startTime, s) \<Rightarrow>
      (case processImage_try env backgroundRemovalApi imageFile startTime (s, w) of
         (Inl error, sw') \<Rightarrow> (Inl (processImage_catch error), sw')
       | (Inr r, sw') \<Rightarrow> (Inr r, sw')))"

section \<open>Notions used to state the retry properties\<close>

text \<open>The world after \<open>k\<close> invocations of an operation, and the first \<open>n\<close> backoff
  delays \<open>initialDelay * backoffMultiplier ^ k\<close>.\<close>

definition world_after :: "('a, 'w) operation \<Rightarrow> nat \<Rightarrow> 'w \<Rightarrow> 'w" where
  "world_after operation k w = ((\<lambda>w. snd (operation w)) ^^ k) w"

definition backoff_delays :: "rat \<Rightarrow> rat \<Rightarrow> nat \<Rightarrow> rat list" where
  "backoff_delays d m n = map (\<lambda>k. d * m ^ k) [0..<n]"

text \<open>An operation that always throws a non-retryable upload error.\<close>

definition invalid_file_operation :: "(unit, nat) operation" where
  "invalid_file_operation n =
     (Inl (createError UPLOAD_ERROR ''INVALID_TYPE'' (Text ''Invalid file'') False), Suc n)"

section \<open>Notions and sample data used to state the cache properties\<close>

text \<open>A sequence of cache writes, one \<^verbatim>\<open>_cacheResult\<close> per key and result.\<close>

definition insert_all :: "env \<Rightarrow> (string \<times> processing_result) list \<Rightarrow> ips_state \<Rightarrow> ips_state" where
  "insert_all env kvs s = fold (\<lambda>(k, r). cacheResult env k r) kvs s"

text \<open>
  A browser in which every read and every decoding succeeds and the clock advances one
  second per read; a service that returns a Blob and one that answers 400; a file and a
  second file with the same name, size, modification time and type but other bytes.
\<close>

definition test_env :: env where
  "test_env = \<lparr>now = (\<lambda>k. 1000 * int k),
                readAsDataURL = (\<lambda>b. Some (''data:'' @ btype b)),
                imageSize = (\<lambda>url. Some (100, 100)),
                toBlob = (\<lambda>c. Some \<lparr>bytes = [1], btype = ''image/png''\<rparr>)\<rparr>"


definition bad_request_api :: "nat api" where
  "bad_request_api imageBlob options n = (Inl (Err (handleApiError 400)), Suc n)"

definition test_file :: js_file where
  "test_file = \<lparr>fname = ''test.png'', lastModified = 1234567890,
                 content = \<lparr>bytes = [116, 101, 115, 116], btype = ''image/png''\<rparr>\<rparr>"


definition empty_state :: ips_state where
  "empty_state = \<lparr>ticks = 0, cache = [], apiCalls = 0\<rparr>"

definition first_result :: processing_result where
  "first_result = \<lparr>originalDataUrl = ''data:image/png'', extractedDataUrl = ''data:image/png'',
                    rwidth = 100, rheight = 100, processingTime = 1000, fromCache = False\<rparr>"

definition eleven_results :: "(string \<times> processing_result) list" where
  "eleven_results = map (\<lambda>k. (k, first_result))
     [''a'', ''b'', ''c'', ''d'', ''e'', ''f'', ''g'', ''h'', ''i'', ''j'', ''k'']"







section \<open>Properties of the canvas utility\<close>

subsection \<open>Rounding\<close>

lemma pow2_eq: "pow2 k = 2 powi k"
  by (simp add: pow2_def power_int_def power_one_over inverse_eq_divide)

lemma pow2_pos: "0 < pow2 k"
  by (simp add: pow2_def)

lemma pow2_add: "pow2 (i + j) = pow2 i * pow2 j"
  by (simp add: pow2_eq power_int_add)

lemma pow2_mono: "i \<le> j \<Longrightarrow> pow2 i \<le> pow2 j"
  by (simp add: pow2_eq power_int_increasing)

lemma bitlen_pow2:
  assumes "0 < p"
  shows "pow2 (bitlen p - 1) \<le> of_int p \<and> of_int p < pow2 (bitlen p)"
proof -
  from bitlen_bounds [OF assms] have b: "2 ^ nat (bitlen p - 1) \<le> p" "p < 2 ^ nat (bitlen p)"
    by simp_all
  have pos: "0 < bitlen p"
    using assms bitlen_nonneg [of p] bitlen_eq_zero_iff [of p] by linarith
  have 1: "pow2 (bitlen p - 1) = of_int (2 ^ nat (bitlen p - 1))"
    using pos by (simp add: pow2_def)
  have 2: "pow2 (bitlen p) = of_int (2 ^ nat (bitlen p))"
    using pos by (simp add: pow2_def)
  show ?thesis
    unfolding 1 2 using b by (simp only: of_int_le_iff of_int_less_iff)
qed

text \<open>\<open>ilog2\<close> is the binary exponent: \<open>2 ^ ilog2 x \<le> x < 2 ^ (ilog2 x + 1)\<close>.\<close>

lemma ilog2_bounds:
  assumes "0 < x"
  shows "pow2 (ilog2 x) \<le> x \<and> x < pow2 (ilog2 x + 1)"
proof -
  obtain p q where pq: "quotient_of x = (p, q)" by (cases "quotient_of x")
  have q: "0 < q" using quotient_of_denom_pos [OF pq] .
  have x: "x = of_int p / of_int q" using quotient_of_div [OF pq] .
  have p: "0 < p" using assms q by (simp add: x zero_less_divide_iff)
  define k where "k = bitlen p - bitlen q"
  note bp = bitlen_pow2 [OF p] and bq = bitlen_pow2 [OF q]
  have Q: "(0::rat) < of_int q" using q by simp
  have lo: "pow2 (k - 1) < x"
  proof -
    have "pow2 (k - 1) * of_int q < pow2 (k - 1) * pow2 (bitlen q)"
      using bq pow2_pos by (intro mult_strict_left_mono) simp_all
    also have "\<dots> = pow2 (bitlen p - 1)"
      by (simp add: k_def pow2_add [symmetric])
    also have "\<dots> \<le> of_int p" using bp by simp
    finally show ?thesis using Q by (simp add: x pos_less_divide_eq)
  qed
  have hi: "x < pow2 (k + 1)"
  proof -
    have "of_int p < pow2 (bitlen p)" using bp by simp
    also have "\<dots> = pow2 (k + 1) * pow2 (bitlen q - 1)"
      by (simp add: k_def pow2_add [symmetric])
    also have "\<dots> \<le> pow2 (k + 1) * of_int q"
      using bq pow2_pos [of "k + 1"] by (intro mult_left_mono) simp_all
    finally show ?thesis using Q by (simp add: x pos_divide_less_eq)
  qed
  have i: "ilog2 x = (if pow2 k \<le> x then k else k - 1)"
    by (simp add: ilog2_def pq k_def Let_def)
  show ?thesis
  proof (cases "pow2 k \<le> x")
    case True
    then show ?thesis using hi i by simp
  next
    case False
    then show ?thesis using lo i by simp
  qed
qed

lemma ilog2_eqI:
  assumes "pow2 k \<le> x" "x < pow2 (k + 1)"
  shows "ilog2 x = k"
proof -
  have x: "0 < x" using pow2_pos [of k] assms(1) by simp
  note b = ilog2_bounds [OF x]
  have "pow2 (ilog2 x) < pow2 (k + 1)" using b assms by simp
  then have 1: "ilog2 x < k + 1"
    using pow2_mono [of "k + 1" "ilog2 x"] by (cases "ilog2 x < k + 1") simp_all
  have "pow2 k < pow2 (ilog2 x + 1)" using b assms by simp
  then have 2: "k < ilog2 x + 1"
    using pow2_mono [of "ilog2 x + 1" k] by (cases "k < ilog2 x + 1") simp_all
  from 1 2 show ?thesis by simp
qed

lemma round_half_even_eqI:
  "\<bar>x - of_int n\<bar> < 1 / 2 \<Longrightarrow> round_half_even x = n"
proof (cases "of_int n \<le> x")
  case True
  assume a: "\<bar>x - of_int n\<bar> < 1 / 2"
  have f: "\<lfloor>x\<rfloor> = n" using True a by (simp add: floor_eq_iff; linarith?)
  have "x - of_int n < 1 / 2" using a by linarith
  then show ?thesis by (simp add: round_half_even_def Let_def f)
next
  case False
  assume a: "\<bar>x - of_int n\<bar> < 1 / 2"
  have f: "\<lfloor>x\<rfloor> = n - 1" using False a by (simp add: floor_eq_iff; linarith?)
  have "1 / 2 < x - of_int (n - 1)" using a False by (simp; linarith?)
  then show ?thesis by (simp add: round_half_even_def Let_def f)
qed

text \<open>The double nearest to \<open>x\<close>, from its exponent and the nearest significand.\<close>

lemma to_double_eqI:
  assumes "pow2 (e + 52) \<le> x" "x < pow2 (e + 53)" "- 1074 \<le> e"
    and "\<bar>x / pow2 e - of_int n\<bar> < 1 / 2"
  shows "to_double x = of_int n * pow2 e"
proof -
  have x: "0 < x" using pow2_pos [of "e + 52"] assms(1) by simp
  have "ilog2 x = e + 52" using assms(1,2) by (intro ilog2_eqI) (simp_all add: add.assoc)
  then have e: "max (ilog2 \<bar>x\<bar> - 52) (- 1074) = e" using x assms(3) by simp
  show ?thesis
    using x e round_half_even_eqI [OF assms(4)]
    by (simp add: to_double_def Let_def)
qed

lemma Math_round_eqI:
  "of_int n \<le> x + 1 / 2 \<Longrightarrow> x + 1 / 2 < of_int n + 1 \<Longrightarrow> Math_round x = of_int n"
  unfolding Math_round_def by (simp add: floor_eq_iff)

subsection \<open>createCanvas\<close>

lemma canvas_dimension_trunc:
  assumes "0 \<le> v" "v < 2147483648"
  shows "canvas_dimension dflt v = nat \<lfloor>v\<rfloor>"
proof -
  have 0: "0 \<le> \<lfloor>v\<rfloor>" using assms(1) by simp
  have 1: "\<lfloor>v\<rfloor> < 2147483648" using assms(2) by (simp add: floor_less_iff)
  have "\<lfloor>v\<rfloor> mod 2 ^ 32 = \<lfloor>v\<rfloor>" using 0 1 by simp
  then show ?thesis using assms(1) 1 by (simp add: canvas_dimension_def Let_def)
qed

lemma canvas_dimension_of_nat:
  assumes "n \<le> 2147483647"
  shows "canvas_dimension dflt (of_nat n) = n"
  using canvas_dimension_trunc [of "of_nat n" dflt] assms by simp

text \<open>
  C8 (as amended). \<^verbatim>\<open>createCanvas\<close> returns a canvas exactly when both arguments
  are finite numbers greater than zero, and throws the canvas error in every other case.
  For positive integers up to \<open>2147483647\<close> the canvas has the arguments as its width
  and height. The test is on sign and finiteness only: a positive non-integer dimension
  is accepted, and the canvas gets the integer part of an argument below \<open>2 ^ 31\<close>.
\<close>

theorem createCanvas_characterisation:
  "((\<exists>c. createCanvas a b = Inr c) \<longleftrightarrow>
      (\<exists>x y. a = Number (Fin x) \<and> b = Number (Fin y) \<and> 0 < x \<and> 0 < y)) \<and>
   ((\<nexists>c. createCanvas a b = Inr c) \<longrightarrow> createCanvas a b = Inl canvas_error) \<and>
   (0 < m \<and> m \<le> 2147483647 \<and> 0 < n \<and> n \<le> 2147483647 \<longrightarrow>
      createCanvas (Number (Fin (of_nat m))) (Number (Fin (of_nat n)))
        = Inr \<lparr>cwidth = m, cheight = n\<rparr>) \<and>
   (0 < v \<and> v < 2147483648 \<and> 0 < u \<and> u < 2147483648 \<longrightarrow>
      createCanvas (Number (Fin v)) (Number (Fin u))
        = Inr \<lparr>cwidth = nat \<lfloor>v\<rfloor>, cheight = nat \<lfloor>u\<rfloor>\<rparr>)"
proof -
  have 1: "(\<exists>c. createCanvas a b = Inr c) \<longleftrightarrow>
      (\<exists>x y. a = Number (Fin x) \<and> b = Number (Fin y) \<and> 0 < x \<and> 0 < y)"
    by (cases "(a, b)" rule: createCanvas.cases) (simp_all add: not_le)
  have 2: "(\<nexists>c. createCanvas a b = Inr c) \<longrightarrow> createCanvas a b = Inl canvas_error"
    by (cases "(a, b)" rule: createCanvas.cases) simp_all
  have 3: "0 < m \<and> m \<le> 2147483647 \<and> 0 < n \<and> n \<le> 2147483647 \<longrightarrow>
      createCanvas (Number (Fin (of_nat m))) (Number (Fin (of_nat n)))
        = Inr \<lparr>cwidth = m, cheight = n\<rparr>"
    by (simp add: canvas_dimension_of_nat)
  have 4: "0 < v \<and> v < 2147483648 \<and> 0 < u \<and> u < 2147483648 \<longrightarrow>
      createCanvas (Number (Fin v)) (Number (Fin u))
        = Inr \<lparr>cwidth = nat \<lfloor>v\<rfloor>, cheight = nat \<lfloor>u\<rfloor>\<rparr>"
    by (simp add: canvas_dimension_trunc)
  from 1 2 3 4 show ?thesis by (intro conjI)
qed

theorem createCanvas_characterisation_witness:
  "createCanvas (Number (Fin (of_nat 800))) (Number (Fin (of_nat 600)))
     = Inr \<lparr>cwidth = 800, cheight = 600\<rparr> \<and>
   createCanvas (Number NaN) (Number (Fin 600)) = Inl canvas_error \<and>
   createCanvas (Number (Fin (5 / 2))) (Number (Fin (7 / 2)))
     = Inr \<lparr>cwidth = nat \<lfloor>5 / 2 :: rat\<rfloor>, cheight = nat \<lfloor>7 / 2 :: rat\<rfloor>\<rparr>"
proof -
  note t = createCanvas_characterisation
    [of "Number NaN" "Number (Fin 600)" 800 600 "5 / 2" "7 / 2"]
  have p: "(0::nat) < 800 \<and> (800::nat) \<le> 2147483647 \<and> (0::nat) < 600 \<and> (600::nat) \<le> 2147483647"
    by simp
  have 1: "createCanvas (Number (Fin (of_nat 800))) (Number (Fin (of_nat 600)))
     = Inr \<lparr>cwidth = 800, cheight = 600\<rparr>"
    using t [THEN conjunct2, THEN conjunct2, THEN conjunct1] p by (rule mp)
  have n: "\<nexists>c. createCanvas (Number NaN) (Number (Fin 600)) = Inr c" by simp
  have 2: "createCanvas (Number NaN) (Number (Fin 600)) = Inl canvas_error"
    using t [THEN conjunct2, THEN conjunct1] n by (rule mp)
  have q: "(0::rat) < 5 / 2 \<and> (5 / 2 :: rat) < 2147483648 \<and> (0::rat) < 7 / 2 \<and> (7 / 2 :: rat) < 2147483648"
    by simp
  have 3: "createCanvas (Number (Fin (5 / 2))) (Number (Fin (7 / 2)))
     = Inr \<lparr>cwidth = nat \<lfloor>5 / 2 :: rat\<rfloor>, cheight = nat \<lfloor>7 / 2 :: rat\<rfloor>\<rparr>"
    using t [THEN conjunct2, THEN conjunct2, THEN conjunct2] q by (rule mp)
  from 1 2 3 show ?thesis by (intro conjI)
qed

text \<open>
  C8 as stated fails: the dimension \<open>1.5\<close> is not an integer, and
  \<^verbatim>\<open>createCanvas(1.5, 2)\<close> returns a canvas, of width \<open>1\<close>, instead of throwing;
  and for the positive integer \<open>2147483648\<close> the canvas does not have the argument as
  its width but the default \<open>300\<close>.
\<close>

theorem createCanvas_fraction_counterexample:
  "createCanvas (Number (Fin (3 / 2))) (Number (Fin 2)) = Inr \<lparr>cwidth = 1, cheight = 2\<rparr>
   \<and> (3 / 2 :: rat) \<notin> \<int>
   \<and> createCanvas (Number (Fin 2147483648)) (Number (Fin 1)) = Inr \<lparr>cwidth = 300, cheight = 1\<rparr>"
proof -
  have i: "(3 / 2 :: rat) \<notin> \<int>"
  proof
    assume "(3 / 2 :: rat) \<in> \<int>"
    then obtain k where "(3 / 2 :: rat) = of_int k" by (rule Ints_cases)
    then have "(of_int 3 :: rat) = of_int (2 * k)" by simp
    then have "3 = 2 * k" by (simp only: of_int_eq_iff)
    then show False by presburger
  qed
  have f: "\<lfloor>3 / 2 :: rat\<rfloor> = 1" by (simp add: floor_eq_iff)
  have 1: "createCanvas (Number (Fin (3 / 2))) (Number (Fin 2)) = Inr \<lparr>cwidth = 1, cheight = 2\<rparr>"
    using f by (simp add: canvas_dimension_def)
  have 2: "createCanvas (Number (Fin 2147483648)) (Number (Fin 1)) = Inr \<lparr>cwidth = 300, cheight = 1\<rparr>"
    by (simp add: canvas_dimension_def)
  from 1 i 2 show ?thesis by (intro conjI)
qed

subsection \<open>resizeImage\<close>

text \<open>
  The rounding of the ratio and of the product decides the result. For a
  \<open>10 \<times> 45\<close> image under the bounds \<open>(7, 1000)\<close> the ratio is the double below
  \<open>0.7\<close> and the product \<open>31.499999999999996\<close>, so the height is \<open>31\<close> (the exact
  product \<open>31.5\<close> would give \<open>32\<close>); a \<open>2432 \<times> 76\<close> image under
  \<open>(2000, 2000)\<close> gets the height \<open>62\<close>; and for a \<open>49 \<times> 98\<close> image under
  \<open>(49, 1)\<close> the product is \<open>0.49999999999999994\<close>, the width \<open>0\<close>, and
  \<^verbatim>\<open>createCanvas\<close> throws.
\<close>

lemma resizeImage_double_rounding:
  "resizeImage (Image 10 45) (Number (Fin 7)) (Number (Fin 1000)) = Inr \<lparr>cwidth = 7, cheight = 31\<rparr> \<and>
   resizeImage (Image 2432 76) (Number (Fin 2000)) (Number (Fin 2000))
     = Inr \<lparr>cwidth = 2000, cheight = 62\<rparr> \<and>
   resizeImage (Image 49 98) (Number (Fin 49)) (Number (Fin 1)) = Inl canvas_error"
proof -
  have r1: "to_double (7 / 10) = 3152519739159347 / 4503599627370496"
    using to_double_eqI [of "- 53" "7 / 10" 6305039478318694]
    by (simp add: pow2_def)
  have p1: "to_double (141863388262170615 / 4503599627370496) = 8866461766385663 / 281474976710656"
    using to_double_eqI [of "- 48" "141863388262170615 / 4503599627370496" 8866461766385663]
    by (simp add: pow2_def)
  have m1: "Math_round (8866461766385663 / 281474976710656) = 31"
    using Math_round_eqI [of 31 "8866461766385663 / 281474976710656"] by simp
  have 1: "resizeImage (Image 10 45) (Number (Fin 7)) (Number (Fin 1000))
      = Inr \<lparr>cwidth = 7, cheight = 31\<rparr>"
    by (simp add: fit_width_def fit_height_def canvas_dimension_def r1 p1 m1)
  have r2: "to_double (125 / 152) = 7407236229227789 / 9007199254740992"
    using to_double_eqI [of "- 53" "125 / 152" 7407236229227789]
    by (simp add: pow2_def)
  have p2: "to_double (140737488355327991 / 2251799813685248) = 8796093022207999 / 140737488355328"
    using to_double_eqI [of "- 47" "140737488355327991 / 2251799813685248" 8796093022207999]
    by (simp add: pow2_def)
  have m2: "Math_round (8796093022207999 / 140737488355328) = 62"
    using Math_round_eqI [of 62 "8796093022207999 / 140737488355328"] by simp
  have 2: "resizeImage (Image 2432 76) (Number (Fin 2000)) (Number (Fin 2000))
      = Inr \<lparr>cwidth = 2000, cheight = 62\<rparr>"
    by (simp add: fit_width_def fit_height_def canvas_dimension_def r2 p2 m2)
  have r3: "to_double (1 / 98) = 5882252574524729 / 576460752303423488"
    using to_double_eqI [of "- 59" "1 / 98" 5882252574524729]
    by (simp add: pow2_def)
  have p3: "to_double (288230376151711721 / 576460752303423488) = 9007199254740991 / 18014398509481984"
    using to_double_eqI [of "- 54" "288230376151711721 / 576460752303423488" 9007199254740991]
    by (simp add: pow2_def)
  have m3: "Math_round (9007199254740991 / 18014398509481984) = 0"
    using Math_round_eqI [of 0 "9007199254740991 / 18014398509481984"] by simp
  have 3: "resizeImage (Image 49 98) (Number (Fin 49)) (Number (Fin 1)) = Inl canvas_error"
    by (simp add: fit_width_def fit_height_def r3 p3 m3)
  from 1 2 3 show ?thesis by (intro conjI)
qed

text \<open>
  With a bound that is not an integer the rounded width can exceed it: a
  \<open>2 \<times> 1000\<close> image under the bounds \<open>(1.75, 874)\<close> is first brought to
  \<open>1.75 \<times> 875\<close>, then the width becomes \<open>Math.round(1.748) = 2\<close>.
\<close>

lemma resizeImage_fractional_bound:
  "resizeImage (Image 2 1000) (Number (Fin (7 / 4))) (Number (Fin 874))
     = Inr \<lparr>cwidth = 2, cheight = 874\<rparr>
   \<and> \<not> (2::rat) \<le> 7 / 4"
proof -
  have r1: "to_double (7 / 8) = 7 / 8"
    using to_double_eqI [of "- 53" "7 / 8" 7881299347898368]
    by (simp add: pow2_def)
  have p1: "to_double 875 = 875"
    using to_double_eqI [of "- 43" 875 7696581394432000]
    by (simp add: pow2_def)
  have m1: "Math_round 875 = 875"
    using Math_round_eqI [of 875 875] by simp
  have r2: "to_double (874 / 875) = 4498452656367787 / 4503599627370496"
    using to_double_eqI [of "- 53" "874 / 875" 8996905312735574]
    by (simp add: pow2_def)
  have p2: "to_double (31489168594574509 / 18014398509481984) = 7872292148643627 / 4503599627370496"
    using to_double_eqI [of "- 52" "31489168594574509 / 18014398509481984" 7872292148643627]
    by (simp add: pow2_def)
  have m2: "Math_round (7872292148643627 / 4503599627370496) = 2"
    using Math_round_eqI [of 2 "7872292148643627 / 4503599627370496"] by simp
  show ?thesis
    by (simp add: fit_width_def fit_height_def canvas_dimension_def r1 p1 m1 r2 p2 m2)
qed

text \<open>
  C1 (the code at a failing input). A \<open>3 \<times> 2\<close> image under the bounds \<open>(2, 10)\<close>:
  the ratio is the double nearest to \<open>2 / 3\<close>, the height
  \<open>Math.round(1.3333333333333333) = 1\<close>, and the canvas is \<open>2 \<times> 1\<close>. Its aspect
  ratio \<open>2\<close> is \<open>0.5\<close> away from the source's \<open>1.5\<close>, not within \<open>0.01\<close>.
\<close>

theorem resizeImage_aspect_divergence:
  "resizeImage (Image 3 2) (Number (Fin 2)) (Number (Fin 10)) = Inr \<lparr>cwidth = 2, cheight = 1\<rparr>
   \<and> \<not> \<bar>(3::rat) / 2 - 2 / 1\<bar> < 1 / 100"
proof -
  have r0: "to_double (2 / 3) = 6004799503160661 / 9007199254740992"
    using to_double_eqI [of "- 53" "2 / 3" 6004799503160661]
    by (simp add: pow2_def)
  have p0: "to_double (6004799503160661 / 4503599627370496) = 6004799503160661 / 4503599627370496"
    using to_double_eqI [of "- 52" "6004799503160661 / 4503599627370496" 6004799503160661]
    by (simp add: pow2_def)
  have m0: "Math_round (6004799503160661 / 4503599627370496) = 1"
    using Math_round_eqI [of 1 "6004799503160661 / 4503599627370496"] by simp
  have 1: "resizeImage (Image 3 2) (Number (Fin 2)) (Number (Fin 10))
      = Inr \<lparr>cwidth = 2, cheight = 1\<rparr>"
    by (simp add: fit_width_def fit_height_def canvas_dimension_def r0 p0 m0)
  have 2: "\<not> \<bar>(3::rat) / 2 - 2 / 1\<bar> < 1 / 100" by simp
  from 1 2 show ?thesis by (rule conjI)
qed

section \<open>Properties of the retry loops and the error classifiers\<close>

lemma world_after_Suc: "world_after operation (Suc k) w = world_after operation k (snd (operation w))"
  by (simp only: world_after_def funpow_Suc_right o_apply)

lemma world_after_0: "world_after operation 0 w = w"
  by (simp add: world_after_def)

lemma retry_loop_fails:
  assumes fails: "\<And>w. \<exists>e. fst (operation w) = Inl e"
  shows "1 \<le> attempt \<Longrightarrow> attempt \<le> maxAttempts \<Longrightarrow> k = nat (maxAttempts - attempt) \<Longrightarrow>
     \<exists>e. fst (operation (world_after operation k w)) = Inl e \<and>
       retry_loop operation maxAttempts d m attempt lastErr (t, w) =
         (Inl (Err e),
          t\<lparr>calls := calls t + k + 1,
            slept := slept t @ map (\<lambda>i. d * m ^ i) [nat (attempt - 1) ..< nat (maxAttempts - 1)]\<rparr>,
          world_after operation (Suc k) w)"
proof (induction k arbitrary: attempt lastErr t w)
  case 0
  then have eq: "attempt = maxAttempts" by simp
  obtain e where e: "fst (operation w) = Inl e" using fails by blast
  then obtain w' where ow: "operation w = (Inl e, w')" by (cases "operation w") simp
  have "retry_loop operation maxAttempts d m attempt lastErr (t, w) = (Inl (Err e), t\<lparr>calls := calls t + 1\<rparr>, w')"
    by (subst retry_loop.simps) (simp add: eq invoke_def ow)
  then show ?case using e ow eq by (simp add: world_after_def)
next
  case (Suc k)
  then have lt: "attempt < maxAttempts" and k: "k = nat (maxAttempts - (attempt + 1))"
    and a1: "1 \<le> attempt + 1" "attempt + 1 \<le> maxAttempts"
    by simp_all
  obtain e0 where e0: "fst (operation w) = Inl e0" using fails by blast
  then obtain w' where ow: "operation w = (Inl e0, w')" by (cases "operation w") simp
  let ?t' = "sleep (d * m ^ nat (attempt - 1)) (t\<lparr>calls := calls t + 1\<rparr>)"
  have step: "retry_loop operation maxAttempts d m attempt lastErr (t, w) =
      retry_loop operation maxAttempts d m (attempt + 1) (Err e0) (?t', w')"
    using lt by (subst retry_loop.simps) (simp add: invoke_def ow)
  from Suc.IH [OF a1 k, of w' "Err e0" ?t']
  obtain e where e: "fst (operation (world_after operation k w')) = Inl e"
    and r: "retry_loop operation maxAttempts d m (attempt + 1) (Err e0) (?t', w') =
       (Inl (Err e),
        ?t'\<lparr>calls := calls ?t' + k + 1,
            slept := slept ?t' @ map (\<lambda>i. d * m ^ i) [nat (attempt + 1 - 1) ..< nat (maxAttempts - 1)]\<rparr>,
        world_after operation (Suc k) w')"
    by blast
  have w: "world_after operation (Suc k) w = world_after operation k w'"
    using ow by (simp add: world_after_Suc)
  have w2: "world_after operation (Suc (Suc k)) w = world_after operation (Suc k) w'"
    using ow by (simp add: world_after_Suc [of operation "Suc k" w])
  have up: "[nat (attempt - 1) ..< nat (maxAttempts - 1)] =
      nat (attempt - 1) # [nat (attempt + 1 - 1) ..< nat (maxAttempts - 1)]"
  proof -
    have "nat (attempt - 1) < nat (maxAttempts - 1)" using lt Suc.prems by simp
    moreover have "Suc (nat (attempt - 1)) = nat (attempt + 1 - 1)" using Suc.prems by simp
    ultimately show ?thesis by (simp add: upt_conv_Cons)
  qed
  show ?case
    using e r by (simp add: step w w2 up sleep_def)
qed

lemma executeWithRetry_loop_fails:
  assumes fails: "\<And>w. \<exists>e. fst (operation w) = Inl e \<and> retryable e = Some True"
  shows "1 \<le> attempt \<Longrightarrow> attempt \<le> maxRetries svc \<Longrightarrow> k = nat (maxRetries svc - attempt) \<Longrightarrow>
     \<exists>e. fst (operation (world_after operation k w)) = Inl e \<and>
       executeWithRetry_loop svc operation attempt lastErr (t, w) =
         (Inl (Err e),
          t\<lparr>calls := calls t + k + 1,
            slept := slept t @ map (\<lambda>i. initialDelay svc * backoffMultiplier svc ^ i)
                                 [nat (attempt - 1) ..< nat (maxRetries svc - 1)]\<rparr>,
          world_after operation (Suc k) w)"
proof (induction k arbitrary: attempt lastErr t w)
  case 0
  then have eq: "attempt = maxRetries svc" by simp
  obtain e where e: "fst (operation w) = Inl e" "retryable e = Some True" using fails by blast
  then obtain w' where ow: "operation w = (Inl e, w')" by (cases "operation w") simp
  have "executeWithRetry_loop svc operation attempt lastErr (t, w) =
      (Inl (Err e), t\<lparr>calls := calls t + 1\<rparr>, w')"
    by (subst executeWithRetry_loop.simps) (simp add: eq invoke_def ow e)
  then show ?case using e ow eq by (simp add: world_after_def)
next
  case (Suc k)
  then have lt: "attempt < maxRetries svc" and k: "k = nat (maxRetries svc - (attempt + 1))"
    and a1: "1 \<le> attempt + 1" "attempt + 1 \<le> maxRetries svc"
    by simp_all
  obtain e0 where e0: "fst (operation w) = Inl e0" "retryable e0 = Some True" using fails by blast
  then obtain w' where ow: "operation w = (Inl e0, w')" by (cases "operation w") simp
  let ?t' = "sleep (initialDelay svc * backoffMultiplier svc ^ nat (attempt - 1)) (t\<lparr>calls := calls t + 1\<rparr>)"
  have step: "executeWithRetry_loop svc operation attempt lastErr (t, w) =
      executeWithRetry_loop svc operation (attempt + 1) (Err e0) (?t', w')"
    using lt by (subst executeWithRetry_loop.simps) (simp add: invoke_def ow e0)
  from Suc.IH [OF a1 k, of w' "Err e0" ?t']
  obtain e where e: "fst (operation (world_after operation k w')) = Inl e"
    and r: "executeWithRetry_loop svc operation (attempt + 1) (Err e0) (?t', w') =
       (Inl (Err e),
        ?t'\<lparr>calls := calls ?t' + k + 1,
            slept := slept ?t' @ map (\<lambda>i. initialDelay svc * backoffMultiplier svc ^ i)
                                   [nat (attempt + 1 - 1) ..< nat (maxRetries svc - 1)]\<rparr>,
        world_after operation (Suc k) w')"
    by blast
  have w: "world_after operation (Suc k) w = world_after operation k w'"
    using ow by (simp add: world_after_Suc)
  have w2: "world_after operation (Suc (Suc k)) w = world_after operation (Suc k) w'"
    using ow by (simp add: world_after_Suc [of operation "Suc k" w])
  have up: "[nat (attempt - 1) ..< nat (maxRetries svc - 1)] =
      nat (attempt - 1) # [nat (attempt + 1 - 1) ..< nat (maxRetries svc - 1)]"
  proof -
    have "nat (attempt - 1) < nat (maxRetries svc - 1)" using lt Suc.prems by simp
    moreover have "Suc (nat (attempt - 1)) = nat (attempt + 1 - 1)" using Suc.prems by simp
    ultimately show ?thesis by (simp add: upt_conv_Cons)
  qed
  show ?case
    using e r by (simp add: step w w2 up sleep_def)
qed

text \<open>The constructor's defaults, and the short circuit of \<^verbatim>\<open>_executeWithRetry\<close> on an
  error that is not flagged retryable: one invocation, no sleep.\<close>

lemma new_RemoveBgService_defaults:
  "new_RemoveBgService ''key''
     \<lparr>cfg_maxRetries = None, cfg_initialDelay = None, cfg_backoffMultiplier = None\<rparr> =
   Inr \<lparr>apiKey = ''key'', maxRetries = 3, initialDelay = 1000, backoffMultiplier = 2\<rparr>"
  by (simp add: new_RemoveBgService_def js_or_def MAX_ATTEMPTS_def INITIAL_DELAY_def
        BACKOFF_MULTIPLIER_def)

lemma executeWithRetry_non_retryable:
  assumes "operation w = (Inl e, w')" and "retryable e \<noteq> Some True" and "1 \<le> maxRetries svc"
  shows "executeWithRetry svc operation (t, w) = (Inl (Err e), t\<lparr>calls := calls t + 1\<rparr>, w')"
  unfolding executeWithRetry_def using assms
  by (subst executeWithRetry_loop.simps) (simp add: invoke_def)

text \<open>
  C4. When every invocation of the wrapped operation throws an error whose
  \<^verbatim>\<open>retryable\<close> flag is \<open>true\<close>, and \<open>maxRetries\<close> is a positive count,
  \<^verbatim>\<open>_executeWithRetry\<close> invokes the operation exactly \<open>maxRetries\<close> times, sleeps
  the \<open>maxRetries - 1\<close> backoff delays between them, and throws the error of the last
  invocation.
\<close>
theorem executeWithRetry_retry_bound:
  assumes fails: "\<And>w. \<exists>e. fst (operation w) = Inl e \<and> retryable e = Some True"
    and pos: "1 \<le> maxRetries svc"
  shows "\<exists>e. fst (operation (world_after operation (nat (maxRetries svc) - 1) w)) = Inl e \<and>
     executeWithRetry svc operation (t, w) =
       (Inl (Err e),
        t\<lparr>calls := calls t + nat (maxRetries svc),
          slept := slept t @ backoff_delays (initialDelay svc) (backoffMultiplier svc)
                               (nat (maxRetries svc) - 1)\<rparr>,
        world_after operation (nat (maxRetries svc)) w)"
proof -
  have k: "nat (maxRetries svc) - 1 = nat (maxRetries svc - 1)" by simp
  have s: "Suc (nat (maxRetries svc - 1)) = nat (maxRetries svc)" using pos by simp
  have c: "Suc (calls t + nat (maxRetries svc - 1)) = calls t + nat (maxRetries svc)"
    using pos by simp
  from executeWithRetry_loop_fails [where operation = operation, OF fails, where attempt = 1 and svc = svc
      and k = "nat (maxRetries svc - 1)" and w = w and lastErr = ThrownUndefined and t = t] pos
  obtain e where "fst (operation (world_after operation (nat (maxRetries svc - 1)) w)) = Inl e"
    and "executeWithRetry_loop svc operation 1 ThrownUndefined (t, w) =
          (Inl (Err e),
           t\<lparr>calls := calls t + nat (maxRetries svc - 1) + 1,
               slept := slept t @ map (\<lambda>i. initialDelay svc * backoffMultiplier svc ^ i)
                  [nat (1 - 1) ..< nat (maxRetries svc - 1)]\<rparr>,
           world_after operation (Suc (nat (maxRetries svc - 1))) w)"
    by auto
  then show ?thesis
    unfolding executeWithRetry_def backoff_delays_def k
    by (intro exI [of _ e]) (simp add: s c)
qed

lemma world_after_post_operation:
  "world_after (post_operation net form) k n = n + k"
proof (induction k arbitrary: n)
  case 0
  show ?case by (simp add: world_after_0)
next
  case (Suc k)
  have "snd (post_operation net form n) = Suc n"
    by (simp add: post_operation_def split: axios_result.splits option.splits)
  then show ?case by (simp add: world_after_Suc Suc.IH)
qed

theorem executeWithRetry_retry_bound_witness:
  "1 \<le> maxRetries \<lparr>apiKey = ''key'', maxRetries = 3, initialDelay = 1000, backoffMultiplier = 2\<rparr> \<and>
   executeWithRetry \<lparr>apiKey = ''key'', maxRetries = 3, initialDelay = 1000, backoffMultiplier = 2\<rparr>
     (post_operation (\<lambda>k form. NoResponse) []) (\<lparr>calls = 0, slept = []\<rparr>, 0) =
   (Inl (Err (createError NETWORK_ERROR NETWORK_TIMEOUT (Text ''No response from server'') True)),
    \<lparr>calls = 3, slept = [1000, 2000]\<rparr>, 3)"
proof -
  let ?svc = "\<lparr>apiKey = ''key'', maxRetries = 3, initialDelay = 1000, backoffMultiplier = 2\<rparr>"
  let ?op = "post_operation (\<lambda>k form. NoResponse) []"
  have fails: "\<And>w. \<exists>e. fst (?op w) = Inl e \<and> retryable e = Some True"
    by (simp add: post_operation_def createError_def)
  have pos: "1 \<le> maxRetries ?svc" by simp
  have d: "backoff_delays 1000 2 2 = [1000, 2000]"
    by (simp add: backoff_delays_def upt_rec)
  from executeWithRetry_retry_bound [where operation = ?op and svc = ?svc
      and t = "\<lparr>calls = 0, slept = []\<rparr>" and w = 0, OF fails pos]
  show ?thesis
    by (simp add: world_after_post_operation post_operation_def d)
qed

text \<open>
  C10. \<^verbatim>\<open>ErrorRecovery.retry\<close> does not read the classification of the error: when
  every invocation of the operation throws (whatever its \<^verbatim>\<open>retryable\<close> flag, so also
  \<open>false\<close>), the operation is invoked exactly \<open>maxAttempts\<close> times with all the
  backoff delays before the last error is thrown; \<^verbatim>\<open>withRetry\<close> returns what
  \<^verbatim>\<open>retry\<close> returns, its \<^verbatim>\<open>isRetryable\<close> test coming after the attempts and
  changing nothing.
\<close>
theorem retry_ignores_classification:
  assumes fails: "\<And>w. \<exists>e. fst (operation w) = Inl e"
    and pos: "1 \<le> maxAttempts"
  shows "\<exists>e. fst (operation (world_after operation (nat maxAttempts - 1) w)) = Inl e \<and>
     retry (Some operation) maxAttempts d m (t, w) =
       (Inl (Err e),
        t\<lparr>calls := calls t + nat maxAttempts,
          slept := slept t @ backoff_delays d m (nat maxAttempts - 1)\<rparr>,
        world_after operation (nat maxAttempts) w) \<and>
     withRetry (Some operation)
        \<lparr>opt_maxAttempts = Some maxAttempts, opt_initialDelay = Some d,
         opt_backoffMultiplier = Some m\<rparr> (t, w) =
       retry (Some operation) maxAttempts d m (t, w)"
proof -
  have k: "nat maxAttempts - 1 = nat (maxAttempts - 1)" by simp
  have s: "Suc (nat (maxAttempts - 1)) = nat maxAttempts" using pos by simp
  have c: "Suc (calls t + nat (maxAttempts - 1)) = calls t + nat maxAttempts"
    using pos by simp
  have wr: "withRetry (Some operation)
        \<lparr>opt_maxAttempts = Some maxAttempts, opt_initialDelay = Some d,
         opt_backoffMultiplier = Some m\<rparr> (t, w) =
       retry (Some operation) maxAttempts d m (t, w)"
    by (simp add: withRetry_def default_to_def split: prod.splits sum.splits)
  from retry_loop_fails [where operation = operation, OF fails, where attempt = 1
      and maxAttempts = maxAttempts and k = "nat (maxAttempts - 1)" and w = w
      and lastErr = ThrownUndefined and t = t and d = d and m = m] pos
  obtain e where "fst (operation (world_after operation (nat (maxAttempts - 1)) w)) = Inl e"
    and "retry_loop operation maxAttempts d m 1 ThrownUndefined (t, w) =
          (Inl (Err e),
           t\<lparr>calls := calls t + nat (maxAttempts - 1) + 1,
               slept := slept t @ map (\<lambda>i. d * m ^ i) [nat (1 - 1) ..< nat (maxAttempts - 1)]\<rparr>,
           world_after operation (Suc (nat (maxAttempts - 1))) w)"
    by auto
  then have "fst (operation (world_after operation (nat maxAttempts - 1) w)) = Inl e \<and>
     retry (Some operation) maxAttempts d m (t, w) =
       (Inl (Err e),
        t\<lparr>calls := calls t + nat maxAttempts,
          slept := slept t @ backoff_delays d m (nat maxAttempts - 1)\<rparr>,
        world_after operation (nat maxAttempts) w)"
    using pos unfolding retry_def backoff_delays_def k
    by (simp add: s c)
  with wr show ?thesis by blast
qed

lemma world_after_invalid_file_operation:
  "world_after invalid_file_operation k n = n + k"
  by (induction k arbitrary: n)
     (simp_all add: world_after_0 world_after_Suc invalid_file_operation_def)

theorem retry_ignores_classification_witness:
  "(1::int) \<le> 3 \<and>
   retryable (createError UPLOAD_ERROR ''INVALID_TYPE'' (Text ''Invalid file'') False) = Some False \<and>
   retry (Some invalid_file_operation) 3 1000 2 (\<lparr>calls = 0, slept = []\<rparr>, 0) =
     (Inl (Err (createError UPLOAD_ERROR ''INVALID_TYPE'' (Text ''Invalid file'') False)),
      \<lparr>calls = 3, slept = [1000, 2000]\<rparr>, 3) \<and>
   withRetry (Some invalid_file_operation)
      \<lparr>opt_maxAttempts = Some 3, opt_initialDelay = Some 1000, opt_backoffMultiplier = Some 2\<rparr>
      (\<lparr>calls = 0, slept = []\<rparr>, 0) =
     (Inl (Err (createError UPLOAD_ERROR ''INVALID_TYPE'' (Text ''Invalid file'') False)),
      \<lparr>calls = 3, slept = [1000, 2000]\<rparr>, 3)"
proof -
  have fails: "\<And>w. \<exists>e. fst (invalid_file_operation w) = Inl e"
    by (simp add: invalid_file_operation_def)
  have pos: "(1::int) \<le> 3" by simp
  have d: "backoff_delays 1000 2 2 = [1000, 2000]"
    by (simp add: backoff_delays_def upt_rec)
  from retry_ignores_classification [where operation = invalid_file_operation
      and maxAttempts = 3 and d = 1000 and m = 2
      and t = "\<lparr>calls = 0, slept = []\<rparr>" and w = 0, OF fails pos]
  show ?thesis
    by (simp add: world_after_invalid_file_operation invalid_file_operation_def d createError_def)
qed

text \<open>
  C7 (as amended). On an error that still carries the flag set by \<^verbatim>\<open>_handleApiError\<close>,
  \<^verbatim>\<open>isRetryable\<close> returns that flag. On the same error without the flag, the two
  classifiers agree for bad-request (400), auth (401/403) and the statuses from 500 on,
  and they disagree for quota/payment (402/429): \<^verbatim>\<open>_handleApiError\<close> marks the
  error non-retryable, \<^verbatim>\<open>isRetryable\<close> answers \<open>true\<close>.
\<close>
theorem isRetryable_vs_handleApiError:
  "(isRetryable (Some (handleApiError status)) \<longleftrightarrow> retryable (handleApiError status) = Some True) \<and>
   (status \<in> {400, 401, 403} \<or> 500 \<le> status \<longrightarrow>
      (isRetryable (Some ((handleApiError status)\<lparr>retryable := None\<rparr>)) \<longleftrightarrow>
       retryable (handleApiError status) = Some True)) \<and>
   (status \<in> {402, 429} \<longrightarrow>
      retryable (handleApiError status) = Some False \<and>
      isRetryable (Some ((handleApiError status)\<lparr>retryable := None\<rparr>)))"
  by (simp add: handleApiError_def createError_def isRetryable_def code_in_def
        retryableApiErrors_def nonRetryableApiErrors_def)

theorem isRetryable_vs_handleApiError_witness:
  "isRetryable (Some ((handleApiError 503)\<lparr>retryable := None\<rparr>)) \<and>
   retryable (handleApiError 503) = Some True \<and>
   \<not> isRetryable (Some ((handleApiError 400)\<lparr>retryable := None\<rparr>)) \<and>
   retryable (handleApiError 402) = Some False \<and>
   isRetryable (Some ((handleApiError 402)\<lparr>retryable := None\<rparr>))"
proof -
  note a = isRetryable_vs_handleApiError [of 503, THEN conjunct2, THEN conjunct1]
  note b = isRetryable_vs_handleApiError [of 400, THEN conjunct2, THEN conjunct1]
  note c = isRetryable_vs_handleApiError [of 402, THEN conjunct2, THEN conjunct2]
  have 1: "retryable (handleApiError 503) = Some True"
    by (simp add: handleApiError_def createError_def)
  have 2: "retryable (handleApiError 400) \<noteq> Some True"
    by (simp add: handleApiError_def createError_def)
  have h503: "(503::int) \<in> {400, 401, 403} \<or> (500::int) \<le> 503" by simp
  have h400: "(400::int) \<in> {400, 401, 403} \<or> (500::int) \<le> 400" by simp
  have h402: "(402::int) \<in> {402, 429}" by simp
  from a h503 1 have r1: "isRetryable (Some ((handleApiError 503)\<lparr>retryable := None\<rparr>))" by blast
  from b h400 2 have r2: "\<not> isRetryable (Some ((handleApiError 400)\<lparr>retryable := None\<rparr>))" by blast
  from c h402 have r3: "retryable (handleApiError 402) = Some False \<and>
      isRetryable (Some ((handleApiError 402)\<lparr>retryable := None\<rparr>))" by blast
  from r1 1 r2 r3 show ?thesis by blast
qed

text \<open>
  C7 as stated fails for the quota class: status 429 is classified non-retryable by
  \<^verbatim>\<open>_handleApiError\<close> and retryable by \<^verbatim>\<open>isRetryable\<close> once the flag is absent.
\<close>

theorem isRetryable_quota_counterexample:
  "retryable (handleApiError 429) = Some False \<and>
   isRetryable (Some ((handleApiError 429)\<lparr>retryable := None\<rparr>)) = True"
  by (simp add: handleApiError_def createError_def isRetryable_def code_in_def
        retryableApiErrors_def nonRetryableApiErrors_def)

lemma post_operation_requests: "snd (post_operation net form n) = Suc n"
  by (simp add: post_operation_def split: axios_result.splits option.splits)

lemma executeWithRetry_loop_requests:
  "n \<le> snd (snd (executeWithRetry_loop svc (post_operation net form) attempt lastErr (t, n))) \<and>
   (attempt \<le> maxRetries svc \<longrightarrow>
      n < snd (snd (executeWithRetry_loop svc (post_operation net form) attempt lastErr (t, n))))"
proof (induction "nat (maxRetries svc + 1 - attempt)" arbitrary: attempt lastErr t n)
  case 0
  then have "\<not> attempt \<le> maxRetries svc" by simp
  then show ?case by (subst (1 2) executeWithRetry_loop.simps) simp
next
  case (Suc k)
  then have le: "attempt \<le> maxRetries svc" and k: "k = nat (maxRetries svc + 1 - (attempt + 1))"
    by simp_all
  obtain r where po: "post_operation net form n = (r, Suc n)"
    using post_operation_requests [of net form n] by (cases "post_operation net form n") simp
  note IH = Suc.hyps(1) [OF k]
  show ?case
  proof (cases r)
    case (Inr v)
    then show ?thesis using le po
      by (subst (1 2) executeWithRetry_loop.simps) (simp add: invoke_def)
  next
    case (Inl e)
    show ?thesis
    proof (cases "retryable e \<noteq> Some True \<or> attempt = maxRetries svc")
      case True
      then show ?thesis using le po Inl
        by (subst (1 2) executeWithRetry_loop.simps) (auto simp: invoke_def)
    next
      case False
      let ?t' = "sleep (initialDelay svc * backoffMultiplier svc ^ nat (attempt - 1)) (t\<lparr>calls := calls t + 1\<rparr>)"
      have step: "executeWithRetry_loop svc (post_operation net form) attempt lastErr (t, n) =
          executeWithRetry_loop svc (post_operation net form) (attempt + 1) (Err e) (?t', Suc n)"
        using le po Inl False
        by (subst executeWithRetry_loop.simps) (simp add: invoke_def)
      from IH [where lastErr = "Err e" and t = ?t' and n = "Suc n"]
      have "Suc n \<le> snd (snd (executeWithRetry_loop svc (post_operation net form) (attempt + 1) (Err e) (?t', Suc n)))"
        by simp
      then show ?thesis by (simp add: step)
    qed
  qed
qed

text \<open>
  C6 (as amended). \<^verbatim>\<open>removeBackground\<close> validates that its input is a Blob object
  before any network call: for a falsy or non-Blob input it throws a non-retryable
  \<open>PROCESSING_ERROR\<close> and issues no request. The size of the Blob is not tested: every
  Blob, a zero-byte one included, is posted (at least one request, when
  \<open>maxRetries \<ge> 1\<close>).
\<close>

theorem removeBackground_validation:
  "(imageBlob = NoBlob \<or> imageBlob = NotABlob \<longrightarrow>
      removeBackground net svc imageBlob options (t, n) =
        (Inl (Err (createError PROCESSING_ERROR API_BAD_REQUEST
                     (Text ''Invalid image blob provided'') False)), t, n)) \<and>
   retryable (createError PROCESSING_ERROR API_BAD_REQUEST
                (Text ''Invalid image blob provided'') False) = Some False \<and>
   (1 \<le> maxRetries svc \<longrightarrow>
      n < snd (snd (removeBackground net svc (ABlob b) options (t, n))))"
proof -
  have 1: "imageBlob = NoBlob \<or> imageBlob = NotABlob \<longrightarrow>
      removeBackground net svc imageBlob options (t, n) =
        (Inl (Err (createError PROCESSING_ERROR API_BAD_REQUEST
                     (Text ''Invalid image blob provided'') False)), t, n)"
    by (auto simp: removeBackground_def)
  have 2: "retryable (createError PROCESSING_ERROR API_BAD_REQUEST
                (Text ''Invalid image blob provided'') False) = Some False"
    by (simp add: createError_def)
  have 3: "1 \<le> maxRetries svc \<longrightarrow>
      n < snd (snd (removeBackground net svc (ABlob b) options (t, n)))"
    using executeWithRetry_loop_requests [where n = n and svc = svc and net = net
        and form = "formData b options" and attempt = 1 and lastErr = ThrownUndefined and t = t]
    by (simp add: removeBackground_def executeWithRetry_def)
  from 1 2 3 show ?thesis by blast
qed

theorem removeBackground_validation_witness:
  "removeBackground (\<lambda>k form. NoResponse)
      \<lparr>apiKey = ''key'', maxRetries = 3, initialDelay = 1000, backoffMultiplier = 2\<rparr> NoBlob
      \<lparr>opt_size = None, opt_type = None, opt_format = None, opt_crop = None,
       opt_crop_margin = None, opt_position = None, opt_roi = None\<rparr>
      (\<lparr>calls = 0, slept = []\<rparr>, 0) =
     (Inl (Err (createError PROCESSING_ERROR API_BAD_REQUEST
                  (Text ''Invalid image blob provided'') False)), \<lparr>calls = 0, slept = []\<rparr>, 0) \<and>
   (0::nat) < snd (snd (removeBackground (\<lambda>k form. NoResponse)
      \<lparr>apiKey = ''key'', maxRetries = 3, initialDelay = 1000, backoffMultiplier = 2\<rparr>
      (ABlob \<lparr>bytes = [], btype = ''image/png''\<rparr>)
      \<lparr>opt_size = None, opt_type = None, opt_format = None, opt_crop = None,
       opt_crop_margin = None, opt_position = None, opt_roi = None\<rparr>
      (\<lparr>calls = 0, slept = []\<rparr>, 0)))"
proof -
  let ?svc = "\<lparr>apiKey = ''key'', maxRetries = 3, initialDelay = 1000, backoffMultiplier = 2\<rparr>"
  let ?o = "\<lparr>opt_size = None, opt_type = None, opt_format = None, opt_crop = None,
       opt_crop_margin = None, opt_position = None, opt_roi = None\<rparr>"
  note t = removeBackground_validation [where imageBlob = NoBlob and net = "\<lambda>k form. NoResponse"
     and svc = ?svc and options = ?o and t = "\<lparr>calls = 0, slept = []\<rparr>" and n = 0
     and b = "\<lparr>bytes = [], btype = ''image/png''\<rparr>"]
  have h1: "NoBlob = NoBlob \<or> NoBlob = NotABlob" by simp
  have h2: "1 \<le> maxRetries ?svc" by simp
  from t [THEN conjunct1] h1 have a: "removeBackground (\<lambda>k form. NoResponse) ?svc NoBlob ?o
      (\<lparr>calls = 0, slept = []\<rparr>, 0) =
     (Inl (Err (createError PROCESSING_ERROR API_BAD_REQUEST
                  (Text ''Invalid image blob provided'') False)), \<lparr>calls = 0, slept = []\<rparr>, 0)"
    by (rule mp)
  from t [THEN conjunct2, THEN conjunct2] h2
  have b: "(0::nat) < snd (snd (removeBackground (\<lambda>k form. NoResponse) ?svc
      (ABlob \<lparr>bytes = [], btype = ''image/png''\<rparr>) ?o (\<lparr>calls = 0, slept = []\<rparr>, 0)))"
    by (rule mp)
  from a b show ?thesis by (rule conjI)
qed

text \<open>
  C6 as stated fails: a zero-byte Blob passes the validation, one request is issued and
  the response is returned.
\<close>

theorem removeBackground_empty_blob_counterexample:
  "removeBackground (\<lambda>k form. Resolved (Some \<lparr>bytes = [137, 80, 78, 71], btype = ''image/png''\<rparr>))
      \<lparr>apiKey = ''key'', maxRetries = 3, initialDelay = 1000, backoffMultiplier = 2\<rparr>
      (ABlob \<lparr>bytes = [], btype = ''image/png''\<rparr>)
      \<lparr>opt_size = None, opt_type = None, opt_format = None, opt_crop = None,
       opt_crop_margin = None, opt_position = None, opt_roi = None\<rparr>
      (\<lparr>calls = 0, slept = []\<rparr>, 0) =
     (Inr \<lparr>bytes = [137, 80, 78, 71], btype = ''image/png''\<rparr>, \<lparr>calls = 1, slept = []\<rparr>, 1)
   \<and> length (bytes \<lparr>bytes = [], btype = ''image/png''\<rparr>) = 0"
  unfolding removeBackground_def executeWithRetry_def
  by (subst executeWithRetry_loop.simps) (simp add: invoke_def post_operation_def)

section \<open>Properties of the pattern extractor\<close>

text \<open>
  When no row and no column exceeds the threshold, \<^verbatim>\<open>_findContentBounds\<close> keeps its
  initial values \<open>top = left = 0\<close>, \<open>bottom = rows - 1\<close>, \<open>right = columns - 1\<close>, and
  the test \<open>top \<ge> bottom \<or> left \<ge> right\<close> holds only for a single row or column. So
  \<^verbatim>\<open>smartCrop\<close> crops such an image of at least \<open>2 \<times> 2\<close> pixels and never reaches
  \<^verbatim>\<open>extractPattern\<close>.
\<close>

lemma first_above_none:
  "\<forall>d \<in> set ds. \<not> js_gt d t \<Longrightarrow> first_above ds t i = None"
  by (induction ds arbitrary: i) simp_all

lemma last_above_none:
  "\<forall>d \<in> set ds. \<not> js_gt d t \<Longrightarrow> last_above ds t = None"
  by (simp add: last_above_def first_above_none)

lemma findContentBounds_no_content:
  assumes "\<forall>d \<in> set rowDensity. \<not> js_gt d t" and "\<forall>d \<in> set colDensity. \<not> js_gt d t"
  shows "findContentBounds rowDensity colDensity t =
    (if length rowDensity \<le> 1 \<or> length colDensity \<le> 1 then None
     else Some \<lparr>b_left = 0, b_top = 0, b_right = int (length colDensity) - 1,
                b_bottom = int (length rowDensity) - 1\<rparr>)"
  using assms
  by (auto simp: findContentBounds_def first_above_none last_above_none)

lemma smartCrop_no_content:
  assumes "\<forall>d \<in> set (calculateRowDensity pixels width height). \<not> js_gt d (5 / 100)"
    and "\<forall>d \<in> set (calculateColumnDensity pixels width height). \<not> js_gt d (5 / 100)"
    and "2 \<le> width" "2 \<le> height"
  shows "smartCrop pixels width height \<lparr>opt_densityThreshold = None, opt_crop_padding = p\<rparr> =
    DensityCrop (paddedBounds (default_to p 20) width height
       \<lparr>b_left = 0, b_top = 0, b_right = int width - 1, b_bottom = int height - 1\<rparr>)"
proof -
  have l: "length (calculateRowDensity pixels width height) = height"
    "length (calculateColumnDensity pixels width height) = width"
    by (simp_all add: calculateRowDensity_def calculateColumnDensity_def)
  have n: "\<not> (height \<le> 1 \<or> width \<le> 1)" using assms(3,4) by simp
  have "findContentBounds (calculateRowDensity pixels width height)
      (calculateColumnDensity pixels width height) (5 / 100) =
    Some \<lparr>b_left = 0, b_top = 0, b_right = int width - 1, b_bottom = int height - 1\<rparr>"
    by (simp only: findContentBounds_no_content [OF assms(1,2)] l n if_False)
  then show ?thesis
    by (simp only: smartCrop_def default_to_def Let_def option.case smartCrop_options.simps)
qed

lemma extractPattern_transparent_image:
  "extractPattern (replicate 16 0) 2 2 \<lparr>opt_padding = Some 0, opt_threshold = None\<rparr> = None"
proof -
  have u: "[0..<2] = [0, 1]" by (simp add: upt_rec)
  have c: "coords 2 2 = [(0, 0), (1, 0), (0, 1), (1, 1)]"
    by (simp add: coords_def u)
  have b: "detectPatternBoundsBasic (replicate 16 0) 2 2 10 = None"
    by (simp add: detectPatternBoundsBasic_def c exceeds_def px_def scan_bounds_def)
  have d: "detectPatternBounds (replicate 16 0) 2 2 10 = None"
    by (simp add: detectPatternBounds_def c exceeds_def px_def b)
  show ?thesis
    by (simp add: extractPattern_def default_to_def d)
qed

text \<open>
  C5 (the code at a failing input). A fully transparent \<open>2 \<times> 2\<close> image has density
  \<open>0\<close> in every row and column, none above the threshold \<open>0.05\<close>. The claim asks
  for \<open>null\<close> and the fallback; \<^verbatim>\<open>_findContentBounds\<close> returns the box
  \<open>(0, 0, 1, 1)\<close> and \<^verbatim>\<open>smartCrop\<close> (padding \<open>0\<close>) crops to it.
\<close>

theorem smartCrop_transparent_image:
  "calculateRowDensity (replicate 16 0) 2 2 = [Fin 0, Fin 0] \<and>
   calculateColumnDensity (replicate 16 0) 2 2 = [Fin 0, Fin 0] \<and>
   findContentBounds [Fin 0, Fin 0] [Fin 0, Fin 0] (5 / 100) =
     Some \<lparr>b_left = 0, b_top = 0, b_right = 1, b_bottom = 1\<rparr> \<and>
   smartCrop (replicate 16 0) 2 2 \<lparr>opt_densityThreshold = None, opt_crop_padding = Some 0\<rparr> =
     DensityCrop \<lparr>b_left = 0, b_top = 0, b_right = 1, b_bottom = 1\<rparr>"
proof -
  have u: "[0..<2] = [0, 1]" by (simp add: upt_rec)
  have r: "calculateRowDensity (replicate 16 0) 2 2 = [Fin 0, Fin 0]"
    by (simp add: calculateRowDensity_def u density_def exceeds_def px_def)
  have c: "calculateColumnDensity (replicate 16 0) 2 2 = [Fin 0, Fin 0]"
    by (simp add: calculateColumnDensity_def u density_def exceeds_def px_def)
  have f: "findContentBounds [Fin 0, Fin 0] [Fin 0, Fin 0] (5 / 100) =
     Some \<lparr>b_left = 0, b_top = 0, b_right = 1, b_bottom = 1\<rparr>"
    by (simp add: findContentBounds_def last_above_def)
  have s: "smartCrop (replicate 16 0) 2 2 \<lparr>opt_densityThreshold = None, opt_crop_padding = Some 0\<rparr> =
     DensityCrop \<lparr>b_left = 0, b_top = 0, b_right = 1, b_bottom = 1\<rparr>"
    using f by (simp add: smartCrop_def default_to_def r c paddedBounds_def)
  from r c f s show ?thesis by simp
qed

section \<open>Properties of the result cache and of processImage\<close>

lemma pipeline_frame:
  assumes "pipeline env svc f (s, w) = (r, s', w')"
  shows "cache s' = cache s \<and> ticks s' = ticks s \<and> apiCalls s \<le> apiCalls s'"
  using assms
  by (auto simp: pipeline_def ips_removeBackground_def
        split: sum.splits prod.splits)

lemma pipeline_success:
  assumes "pipeline env svc f (s, w) = (Inr x, s', w')"
  shows "apiCalls s' = Suc (apiCalls s)"
  using assms
  by (auto simp: pipeline_def ips_removeBackground_def
        split: sum.splits prod.splits)

lemma map_of_Map_set: "map_of (Map_set k v m) k = Some v"
proof (cases "map_of m k")
  case None
  then show ?thesis by (simp add: Map_set_def map_add_def)
next
  case (Some old)
  have "map_of m k \<noteq> None \<Longrightarrow> map_of (map (\<lambda>kv. if fst kv = k then (k, v) else kv) m) k = Some v"
    by (induction m) auto
  then show ?thesis using Some by (simp add: Map_set_def)
qed

lemma cacheResult_lookup:
  "map_of (cache (cacheResult env k r s)) k = Some \<lparr>result = r, timestamp = now env (ticks s)\<rparr>"
  by (simp add: cacheResult_def Date_now_def map_of_Map_set Let_def split: list.splits)

lemma cacheResult_ticks: "ticks (cacheResult env k r s) = Suc (ticks s)"
  by (simp add: cacheResult_def Date_now_def Let_def split: list.splits)

lemma cacheResult_apiCalls: "apiCalls (cacheResult env k r s) = apiCalls s"
  by (simp add: cacheResult_def Date_now_def Let_def split: list.splits)

lemma processImage_miss:
  assumes "map_of (cache s) (generateCacheKey f) = None"
  shows "processImage env (Some svc) (AFile f) (s, w) =
    (case pipeline env svc f (s\<lparr>ticks := ticks s + 1\<rparr>, w) of
       (Inl e, s2, w2) \<Rightarrow> (Inl (processImage_catch e), s2, w2)
     | (Inr (originalUrl, finalUrl, finalWidth, finalHeight), s2, w2) \<Rightarrow>
         (let r = \<lparr>originalDataUrl = originalUrl, extractedDataUrl = finalUrl,
                   rwidth = finalWidth, rheight = finalHeight,
                   processingTime = now env (ticks s2) - now env (ticks s), fromCache = False\<rparr>
          in (Inr r, cacheResult env (generateCacheKey f) r (s2\<lparr>ticks := ticks s2 + 1\<rparr>), w2)))"
  using assms
  by (simp add: processImage_def processImage_try_def Date_now_def getCachedResult_def Let_def
        split: sum.splits prod.splits)

lemma processImage_hit:
  assumes "map_of (cache s) (generateCacheKey f) = Some e"
    and "now env (Suc (ticks s)) - timestamp e \<le> CACHE_EXPIRATION_TIME"
  shows "processImage env (Some svc) (AFile f) (s, w) =
    (Inr ((result e)\<lparr>processingTime := now env (ticks s + 2) - now env (ticks s), fromCache := True\<rparr>),
     s\<lparr>ticks := ticks s + 3\<rparr>, w)"
  using assms
  by (simp add: processImage_def processImage_try_def Date_now_def getCachedResult_def Let_def)

lemma processImage_expired:
  assumes "map_of (cache s) (generateCacheKey f) = Some e"
    and "\<not> now env (Suc (ticks s)) - timestamp e \<le> CACHE_EXPIRATION_TIME"
  shows "processImage env (Some svc) (AFile f) (s, w) =
    (case pipeline env svc f
            (s\<lparr>ticks := ticks s + 2, cache := Map_delete (generateCacheKey f) (cache s)\<rparr>, w) of
       (Inl e, s2, w2) \<Rightarrow> (Inl (processImage_catch e), s2, w2)
     | (Inr (originalUrl, finalUrl, finalWidth, finalHeight), s2, w2) \<Rightarrow>
         (let r = \<lparr>originalDataUrl = originalUrl, extractedDataUrl = finalUrl,
                   rwidth = finalWidth, rheight = finalHeight,
                   processingTime = now env (ticks s2) - now env (ticks s), fromCache = False\<rparr>
          in (Inr r, cacheResult env (generateCacheKey f) r (s2\<lparr>ticks := ticks s2 + 1\<rparr>), w2)))"
  using assms
  by (simp add: processImage_def processImage_try_def Date_now_def getCachedResult_def Let_def
        split: sum.splits prod.splits)

lemma processImage_invalid:
  "imageFile = NoFile \<or> imageFile = NotAFile \<or> api = None \<Longrightarrow>
   \<exists>e. processImage env api imageFile (s, w) = (Inl e, s\<lparr>ticks := ticks s + 1\<rparr>, w)"
  by (auto simp: processImage_def processImage_try_def Date_now_def split: file_arg.splits)

lemma Map_delete_first:
  "distinct (map fst ((k, v) # m)) \<Longrightarrow> Map_delete k ((k, v) # m) = m"
proof -
  assume "distinct (map fst ((k, v) # m))"
  then have "\<forall>kv \<in> set m. fst kv \<noteq> k" by auto
  then have "filter (\<lambda>kv. fst kv \<noteq> k) m = m" by (simp add: filter_id_conv)
  then show ?thesis by (simp add: Map_delete_def)
qed

lemma Map_set_fresh:
  "k \<notin> fst ` set m \<Longrightarrow> Map_set k v m = m @ [(k, v)]"
  by (simp add: Map_set_def map_of_eq_None_iff [THEN iffD2])

lemma cacheResult_keys:
  assumes d: "distinct (map fst (cache s))" and k: "k \<notin> fst ` set (cache s)"
  shows "map fst (cache (cacheResult env k r s)) =
     (if length (cache s) \<ge> MAX_CACHE_SIZE then tl (map fst (cache s)) @ [k]
      else map fst (cache s) @ [k])"
proof (cases "length (cache s) \<ge> MAX_CACHE_SIZE")
  case False
  then show ?thesis using k
    by (simp add: cacheResult_def Date_now_def Map_set_fresh)
next
  case True
  then obtain fk v m where c: "cache s = (fk, v) # m"
    by (cases "cache s") (auto simp: MAX_CACHE_SIZE_def)
  have del: "Map_delete fk (cache s) = m" using d c by (simp add: Map_delete_first)
  have "k \<notin> fst ` set m" using k c by auto
  then show ?thesis using True c del
    by (simp add: cacheResult_def Date_now_def Map_set_fresh)
qed

lemma insert_all_keys:
  "distinct (map fst (cache s) @ map fst kvs) \<Longrightarrow> length (cache s) \<le> MAX_CACHE_SIZE \<Longrightarrow>
   map fst (cache (insert_all env kvs s)) =
     drop (length (cache s) + length kvs - MAX_CACHE_SIZE) (map fst (cache s) @ map fst kvs)"
proof (induction kvs arbitrary: s)
  case Nil
  then show ?case by (simp add: insert_all_def)
next
  case (Cons kv kvs)
  obtain k r where kv: "kv = (k, r)" by (cases kv)
  let ?s' = "cacheResult env k r s"
  have d: "distinct (map fst (cache s))" and kn: "k \<notin> fst ` set (cache s)"
    using Cons.prems(1) kv by auto
  note keys = cacheResult_keys [OF d kn, of env r]
  show ?case
  proof (cases "length (cache s) \<ge> MAX_CACHE_SIZE")
    case True
    then have len: "length (cache s) = MAX_CACHE_SIZE" using Cons.prems(2) by simp
    then have ne: "map fst (cache s) \<noteq> []" by (auto simp: MAX_CACHE_SIZE_def)
    have k': "map fst (cache ?s') = tl (map fst (cache s)) @ [k]" using keys True by simp
    have "length (map fst (cache ?s')) = length (tl (map fst (cache s)) @ [k])"
      by (simp only: k')
    then have l': "length (cache ?s') = MAX_CACHE_SIZE"
      using len by (simp add: MAX_CACHE_SIZE_def)
    have d': "distinct (map fst (cache ?s') @ map fst kvs)"
      using Cons.prems(1) kv ne unfolding k'
      by (cases "map fst (cache s)") auto
    have "map fst (cache (insert_all env (kv # kvs) s)) = map fst (cache (insert_all env kvs ?s'))"
      by (simp add: insert_all_def kv)
    also have "\<dots> = drop (length (cache ?s') + length kvs - MAX_CACHE_SIZE)
                      (map fst (cache ?s') @ map fst kvs)"
      using Cons.IH [OF d'] l' by simp
    also have "\<dots> = drop (length kvs) (tl (map fst (cache s)) @ k # map fst kvs)"
      by (simp add: l' k')
    also have "\<dots> = drop (Suc (length kvs)) (map fst (cache s) @ k # map fst kvs)"
      using ne by (cases "map fst (cache s)") simp_all
    finally show ?thesis by (simp add: len kv)
  next
    case False
    have k': "map fst (cache ?s') = map fst (cache s) @ [k]" using keys False by simp
    have "length (map fst (cache ?s')) = length (map fst (cache s) @ [k])"
      by (simp only: k')
    then have l': "length (cache ?s') = Suc (length (cache s))"
      by simp
    have le': "length (cache ?s') \<le> MAX_CACHE_SIZE" using False l' by simp
    have d': "distinct (map fst (cache ?s') @ map fst kvs)"
      using Cons.prems(1) kv unfolding k' by auto
    have "map fst (cache (insert_all env (kv # kvs) s)) = map fst (cache (insert_all env kvs ?s'))"
      by (simp add: insert_all_def kv)
    also have "\<dots> = drop (length (cache ?s') + length kvs - MAX_CACHE_SIZE)
                      (map fst (cache ?s') @ map fst kvs)"
      using Cons.IH [OF d' le'] by simp
    finally show ?thesis by (simp add: l' k' kv)
  qed
qed

text \<open>
  C3. Starting from an empty cache, writing \<open>N > 10\<close> results under pairwise distinct
  keys leaves exactly \<open>10\<close> entries: the keys of the last ten writes, in insertion
  order. The \<open>N - 10\<close> keys written first are the evicted ones, and after every write
  of the sequence the cache holds at most \<open>10\<close> entries.
\<close>
theorem cache_bound_fifo:
  assumes "distinct (map fst kvs)" and "cache s = []" and "length kvs > MAX_CACHE_SIZE"
  shows "MAX_CACHE_SIZE = 10 \<and>
     map fst (cache (insert_all env kvs s)) = drop (length kvs - 10) (map fst kvs) \<and>
     length (cache (insert_all env kvs s)) = 10 \<and>
     (\<forall>k \<in> set (take (length kvs - 10) (map fst kvs)). map_of (cache (insert_all env kvs s)) k = None) \<and>
     (\<forall>n \<le> length kvs. length (cache (insert_all env (take n kvs) s)) \<le> 10)"
proof -
  have m: "MAX_CACHE_SIZE = 10" by (simp add: MAX_CACHE_SIZE_def)
  have keys: "\<And>xs. distinct (map fst xs) \<Longrightarrow>
      map fst (cache (insert_all env xs s)) = drop (length xs - 10) (map fst xs)"
    using insert_all_keys [of s _ env] assms(2) by (simp add: m)
  have 1: "map fst (cache (insert_all env kvs s)) = drop (length kvs - 10) (map fst kvs)"
    using keys assms(1) by simp
  have "length (map fst (cache (insert_all env kvs s))) = 10"
    unfolding 1 using assms(3) by (simp add: m)
  then have 2: "length (cache (insert_all env kvs s)) = 10" by simp
  have 3: "\<forall>k \<in> set (take (length kvs - 10) (map fst kvs)).
      map_of (cache (insert_all env kvs s)) k = None"
  proof
    fix k assume k: "k \<in> set (take (length kvs - 10) (map fst kvs))"
    have "distinct (take (length kvs - 10) (map fst kvs) @ drop (length kvs - 10) (map fst kvs))"
      using assms(1) by simp
    then have "k \<notin> set (drop (length kvs - 10) (map fst kvs))"
      using k by (simp only: distinct_append) blast
    then have "k \<notin> fst ` set (cache (insert_all env kvs s))"
      using 1 by (metis set_map)
    then show "map_of (cache (insert_all env kvs s)) k = None"
      by (simp add: map_of_eq_None_iff)
  qed
  have 4: "\<forall>n \<le> length kvs. length (cache (insert_all env (take n kvs) s)) \<le> 10"
  proof (intro allI impI)
    fix n assume "n \<le> length kvs"
    have "distinct (map fst (take n kvs))"
      using assms(1) by (simp add: take_map [symmetric])
    from keys [OF this]
    have "length (map fst (cache (insert_all env (take n kvs) s))) =
        length (drop (length (take n kvs) - 10) (map fst (take n kvs)))"
      by simp
    then show "length (cache (insert_all env (take n kvs) s)) \<le> 10"
      by simp
  qed
  from m 1 2 3 4 show ?thesis by blast
qed

lemma processImage_Inr_configured:
  assumes "processImage env api imageFile (s, w) = (Inr r, s', w')"
  shows "\<exists>svc f. api = Some svc \<and> imageFile = AFile f"
proof (rule ccontr)
  assume "\<nexists>svc f. api = Some svc \<and> imageFile = AFile f"
  then have "imageFile = NoFile \<or> imageFile = NotAFile \<or> api = None"
    by (cases imageFile; cases api) auto
  from processImage_invalid [OF this, of env s w] assms show False by auto
qed

lemma processImage_miss_not_from_cache:
  assumes miss: "map_of (cache s) (generateCacheKey f) = None"
    and run: "processImage env api (AFile f) (s, w) = (Inr r, s', w')"
  shows "fromCache r = False \<and> apiCalls s' = Suc (apiCalls s) \<and>
     map_of (cache s') (generateCacheKey f) = Some \<lparr>result = r, timestamp = now env (ticks s + 2)\<rparr>"
proof -
  from processImage_Inr_configured [OF run] obtain svc where api: "api = Some svc" by auto
  obtain pr sp wp where p: "pipeline env svc f (s\<lparr>ticks := ticks s + 1\<rparr>, w) = (pr, sp, wp)"
    by (cases "pipeline env svc f (s\<lparr>ticks := ticks s + 1\<rparr>, w)") auto
  from pipeline_frame [OF p] have t: "ticks sp = ticks s + 1" by simp
  from run [unfolded api processImage_miss [OF miss] p]
  obtain ou fu fw fh where pr: "pr = Inr (ou, fu, fw, fh)"
    and r: "r = \<lparr>originalDataUrl = ou, extractedDataUrl = fu, rwidth = fw, rheight = fh,
                processingTime = now env (ticks sp) - now env (ticks s), fromCache = False\<rparr>"
    and s': "s' = cacheResult env (generateCacheKey f) r (sp\<lparr>ticks := ticks sp + 1\<rparr>)"
    by (cases pr) (auto simp: Let_def)
  from pipeline_success [OF p [unfolded pr]] have a: "apiCalls sp = Suc (apiCalls s)" by simp
  have a': "apiCalls s' = Suc (apiCalls s)"
    unfolding s' using a by (simp add: cacheResult_apiCalls)
  have "map_of (cache s') (generateCacheKey f) =
      Some \<lparr>result = r, timestamp = now env (ticks (sp\<lparr>ticks := ticks sp + 1\<rparr>))\<rparr>"
    unfolding s' by (rule cacheResult_lookup)
  then show ?thesis using r t a' by simp
qed




subsection \<open>The cache key as a function of the identity tuple\<close>













lemma map_of_Map_delete: "map_of (Map_delete k m) k = None"
  by (simp add: Map_delete_def map_of_eq_None_iff image_iff)

lemma set_Map_delete: "set (Map_delete k m) \<subseteq> set m"
  by (auto simp: Map_delete_def)

text \<open>
  C9. When \<^verbatim>\<open>processImage\<close> throws, the cache has gained no entry: every entry of the
  cache afterwards was in it before. When the call got as far as the lookup (a File and
  a configured service), the key of the file is not resident afterwards, so a later call
  with the same identity misses the cache and, if it succeeds, returns
  \<open>fromCache = false\<close>.
\<close>
theorem failure_caches_nothing:
  assumes fail: "processImage env api imageFile (s, w) = (Inl e, s', w')"
  shows "set (cache s') \<subseteq> set (cache s) \<and>
     (\<forall>f. imageFile = AFile f \<and> api \<noteq> None \<longrightarrow>
        map_of (cache s') (generateCacheKey f) = None \<and>
        (\<forall>env2 api2 f2 w2 r t.
           generateCacheKey f2 = generateCacheKey f \<and>
           processImage env2 api2 (AFile f2) (s', w2) = (Inr r, t) \<longrightarrow>
           fromCache r = False \<and> apiCalls (fst t) = Suc (apiCalls s')))"
proof -
  have main: "set (cache s') \<subseteq> set (cache s) \<and>
     (\<forall>f. imageFile = AFile f \<and> api \<noteq> None \<longrightarrow> map_of (cache s') (generateCacheKey f) = None)"
  proof (cases "imageFile = NoFile \<or> imageFile = NotAFile \<or> api = None")
    case True
    from processImage_invalid [OF True, of env s w] fail
    have "s' = s\<lparr>ticks := ticks s + 1\<rparr>" by auto
    then show ?thesis using True by auto
  next
    case False
    then obtain f svc where f: "imageFile = AFile f" and api: "api = Some svc"
      by (cases imageFile; cases api) auto
    show ?thesis
    proof (cases "map_of (cache s) (generateCacheKey f)")
      case None
      obtain pr sp wp where p: "pipeline env svc f (s\<lparr>ticks := ticks s + 1\<rparr>, w) = (pr, sp, wp)"
        by (cases "pipeline env svc f (s\<lparr>ticks := ticks s + 1\<rparr>, w)") auto
      from pipeline_frame [OF p] have c: "cache sp = cache s" by simp
      from fail [unfolded f api processImage_miss [OF None] p]
      have "s' = sp" by (cases pr) (auto simp: Let_def)
      then show ?thesis using c None f by simp
    next
      case (Some entry)
      show ?thesis
      proof (cases "now env (Suc (ticks s)) - timestamp entry \<le> CACHE_EXPIRATION_TIME")
        case True
        from fail [unfolded f api processImage_hit [OF Some True]] show ?thesis by simp
      next
        case False
        let ?s0 = "s\<lparr>ticks := ticks s + 2, cache := Map_delete (generateCacheKey f) (cache s)\<rparr>"
        obtain pr sp wp where p: "pipeline env svc f (?s0, w) = (pr, sp, wp)"
          by (cases "pipeline env svc f (?s0, w)") auto
        from pipeline_frame [OF p]
        have c: "cache sp = Map_delete (generateCacheKey f) (cache s)" by simp
        from fail [unfolded f api processImage_expired [OF Some False] p]
        have "s' = sp" by (cases pr) (auto simp: Let_def)
        then show ?thesis using c f set_Map_delete [of "generateCacheKey f" "cache s"]
          by (simp add: map_of_Map_delete)
      qed
    qed
  qed
  show ?thesis
  proof (intro conjI allI impI)
    show "set (cache s') \<subseteq> set (cache s)" using main by simp
  next
    fix f assume "imageFile = AFile f \<and> api \<noteq> None"
    then show "map_of (cache s') (generateCacheKey f) = None" using main by simp
  next
    fix f env2 api2 f2 w2 r t
    assume a: "imageFile = AFile f \<and> api \<noteq> None"
      and b: "generateCacheKey f2 = generateCacheKey f \<and>
           processImage env2 api2 (AFile f2) (s', w2) = (Inr r, t)"
    from a main have "map_of (cache s') (generateCacheKey f) = None" by simp
    with b have n2: "map_of (cache s') (generateCacheKey f2) = None" by simp
    obtain t1 t2 where t: "t = (t1, t2)" by (cases t)
    from b have run: "processImage env2 api2 (AFile f2) (s', w2) = (Inr r, t1, t2)"
      by (simp add: t)
    from processImage_miss_not_from_cache [OF n2 run]
    show "fromCache r = False" and "apiCalls (fst t) = Suc (apiCalls s')"
      by (simp_all add: t)
  qed
qed




lemma failing_run:
  "processImage test_env (Some bad_request_api) (AFile test_file) (empty_state, 0) =
     (Inl (handleApiError 400), \<lparr>ticks = 1, cache = [], apiCalls = 1\<rparr>, 1)"
proof -
  have miss: "map_of (cache empty_state) (generateCacheKey test_file) = None"
    by (simp add: empty_state_def)
  have p: "pipeline test_env bad_request_api test_file (empty_state\<lparr>ticks := ticks empty_state + 1\<rparr>, 0) =
      (Inl (Err (handleApiError 400)), \<lparr>ticks = 1, cache = [], apiCalls = 1\<rparr>, 1)"
    by (simp add: pipeline_def fileToDataUrl_def loadImage_def prepareImageForApi_def
          ips_removeBackground_def test_env_def bad_request_api_def test_file_def
          empty_state_def MAX_IMAGE_WIDTH_def MAX_IMAGE_HEIGHT_def)
  have c: "processImage_catch (Err (handleApiError 400)) = handleApiError 400"
    by (simp add: processImage_catch_def handleApiError_def createError_def truthy_def)
  show ?thesis
    unfolding processImage_miss [OF miss] p by (simp add: c)
qed

theorem failure_caches_nothing_witness:
  "processImage test_env (Some bad_request_api) (AFile test_file) (empty_state, 0) =
     (Inl (handleApiError 400), \<lparr>ticks = 1, cache = [], apiCalls = 1\<rparr>, 1) \<and>
   set (cache \<lparr>ticks = 1, cache = [], apiCalls = 1\<rparr>) \<subseteq> set (cache empty_state) \<and>
   map_of (cache \<lparr>ticks = 1, cache = [], apiCalls = 1\<rparr>) (generateCacheKey test_file) = None"
proof -
  note t = failure_caches_nothing [OF failing_run]
  from t have 1: "set (cache \<lparr>ticks = 1, cache = [], apiCalls = 1\<rparr>) \<subseteq> set (cache empty_state)"
    by (rule conjunct1)
  have h: "AFile test_file = AFile test_file \<and> Some bad_request_api \<noteq> None" by simp
  from t [THEN conjunct2, THEN spec [where x = test_file]] h
  have "map_of (cache \<lparr>ticks = 1, cache = [], apiCalls = 1\<rparr>) (generateCacheKey test_file) = None \<and>
        (\<forall>env2 api2 f2 w2 r t.
           generateCacheKey f2 = generateCacheKey test_file \<and>
           processImage env2 api2 (AFile f2) (\<lparr>ticks = 1, cache = [], apiCalls = 1\<rparr>, w2) = (Inr r, t)
           \<longrightarrow> fromCache r = False \<and>
               apiCalls (fst t) = Suc (apiCalls \<lparr>ticks = 1, cache = [], apiCalls = 1\<rparr>))"
    by (rule mp)
  then have 2: "map_of (cache \<lparr>ticks = 1, cache = [], apiCalls = 1\<rparr>) (generateCacheKey test_file) = None"
    by (rule conjunct1)
  from failing_run 1 2 show ?thesis by (intro conjI)
qed

theorem cache_bound_fifo_witness:
  "distinct (map fst eleven_results) \<and> cache empty_state = [] \<and>
   length eleven_results = 11 \<and>
   map fst (cache (insert_all test_env eleven_results empty_state)) =
     [''b'', ''c'', ''d'', ''e'', ''f'', ''g'', ''h'', ''i'', ''j'', ''k''] \<and>
   length (cache (insert_all test_env eleven_results empty_state)) = 10 \<and>
   map_of (cache (insert_all test_env eleven_results empty_state)) ''a'' = None"
proof -
  have d: "distinct (map fst eleven_results)" by (simp add: eleven_results_def)
  have e: "cache empty_state = []" by (simp add: empty_state_def)
  have l: "length eleven_results = 11" by (simp add: eleven_results_def)
  have g: "length eleven_results > MAX_CACHE_SIZE" by (simp add: l MAX_CACHE_SIZE_def)
  note t = cache_bound_fifo [OF d e g, of test_env]
  from t have 1: "map fst (cache (insert_all test_env eleven_results empty_state)) =
      drop (length eleven_results - 10) (map fst eleven_results)" by blast
  have ks: "map fst (cache (insert_all test_env eleven_results empty_state)) =
     [''b'', ''c'', ''d'', ''e'', ''f'', ''g'', ''h'', ''i'', ''j'', ''k'']"
    unfolding 1 l by (simp add: eleven_results_def)
  from t have 2: "length (cache (insert_all test_env eleven_results empty_state)) = 10" by blast
  from t have "\<forall>k \<in> set (take (length eleven_results - 10) (map fst eleven_results)).
      map_of (cache (insert_all test_env eleven_results empty_state)) k = None" by blast
  moreover have "''a'' \<in> set (take (length eleven_results - 10) (map fst eleven_results))"
    unfolding l by (simp add: eleven_results_def)
  ultimately have 3: "map_of (cache (insert_all test_env eleven_results empty_state)) ''a'' = None"
    by blast
  from d e l ks 2 3 show ?thesis by blast
qed

end
